theory Spec2Isabelle
  imports Main "HOL-Library.Word"
begin

section \<open>Data model of package semver\<close>

text \<open>
  Go strings are byte sequences, modelled as \<open>string\<close> (a list of 8-bit characters);
  \<open>len\<close> is \<open>length\<close> and \<open>p[0]\<close> reads a byte. The functions of the Go standard
  library that \<open>Validate\<close> calls (\<open>strings.SplitN\<close>, \<open>strings.Split\<close>,
  \<open>strings.ContainsAny\<close>, \<open>strings.IndexFunc\<close>, \<open>strings.ContainsRune\<close>,
  \<open>strconv.ParseUint\<close>, the verbs \<open>%d\<close> and \<open>%q\<close> of \<open>fmt.Sprintf\<close>) are
  modelled after their documented behaviour at the arguments the package passes:
  separators are single ASCII bytes, the base is 10 and the bit size 64.

  \<open>strings.IndexFunc\<close> and \<open>strings.ContainsAny\<close> walk over UTF-8 runes. Every
  character set the package passes (\<open>num\<close>, \<open>allowed\<close>, \<open>"-+"\<close>) is ASCII, an ASCII
  byte never occurs inside a multi-byte sequence, and a byte of value 128 or more always
  decodes to a rune (possibly the replacement rune) outside these sets; so walking over
  bytes decides the same predicates.
\<close>

datatype num_err = ErrSyntax | ErrRange

text \<open>
  The error values of the package: its four sentinels, and \<open>*strconv.NumError\<close>
  (fields \<open>Func\<close>, \<open>Num\<close>, \<open>Err\<close>), which \<open>Validate\<close> passes on unchanged from
  \<open>strconv.ParseUint\<close>. \<open>None\<close> of type \<open>error option\<close> is Go's \<open>nil\<close> error.
\<close>

datatype error =
    ErrEmptyString
  | ErrInvalidNumberParts
  | ErrInvalidCharacters
  | ErrSegmentStartsZero
  | NumError string string num_err

text \<open>A run-time panic: the explicit one of \<open>numToName\<close>, or an index out of range.\<close>

datatype fault = Panic string

text \<open>A block of \<open>Validate\<close> either returns from the function or falls through.\<close>

datatype 'a step = Return error "string list" | Next 'a

record version =
  major :: "64 word"
  minor :: "64 word"
  patch :: "64 word"
  pre :: string
  metadata :: string

definition version_zero :: version where
  "version_zero = \<lparr>major = 0, minor = 0, patch = 0, pre = [], metadata = []\<rparr>"

definition bindF :: "fault + 'a \<Rightarrow> ('a \<Rightarrow> fault + 'b) \<Rightarrow> fault + 'b" where
  "bindF m f = (case m of Inl e \<Rightarrow> Inl e | Inr x \<Rightarrow> f x)"

text \<open>Indexing \<open>xs[i]\<close> and the assignment \<open>xs[i] = x\<close>; both panic out of range.\<close>

definition at :: "'a list \<Rightarrow> nat \<Rightarrow> fault + 'a" where
  "at xs i = (if i < length xs then Inr (xs ! i) else Inl (Panic ''index out of range''))"

definition upd :: "'a list \<Rightarrow> nat \<Rightarrow> 'a \<Rightarrow> fault + 'a list" where
  "upd xs i x = (if i < length xs then Inr (xs[i := x]) else Inl (Panic ''index out of range''))"

section \<open>Library functions\<close>

text \<open>\<open>strings.IndexByte\<close>: the first position of the byte, \<open>None\<close> for Go's \<open>-1\<close>.\<close>

fun Index :: "string \<Rightarrow> char \<Rightarrow> nat option" where
  "Index [] sep = None"
| "Index (x # xs) sep = (if x = sep then Some 0 else map_option Suc (Index xs sep))"

definition Count :: "string \<Rightarrow> char \<Rightarrow> nat" where
  "Count s sep = length (filter (\<lambda>x. x = sep) s)"

text \<open>
  The loop of \<open>strings.genSplit\<close>: at most \<open>k\<close> cuts, the rest of the string is the last
  piece.
\<close>

fun genSplit_loop :: "nat \<Rightarrow> string \<Rightarrow> char \<Rightarrow> string list" where
  "genSplit_loop 0 s sep = [s]"
| "genSplit_loop (Suc k) s sep =
     (case Index s sep of
        None \<Rightarrow> [s]
      | Some m \<Rightarrow> take m s # genSplit_loop k (drop (Suc m) s) sep)"

definition SplitN :: "string \<Rightarrow> char \<Rightarrow> int \<Rightarrow> string list" where
  "SplitN s sep n =
     (if n = 0 then []
      else
        let n1 = (if n < 0 then Count s sep + 1 else nat n);
            n2 = (if n1 > length s + 1 then length s + 1 else n1)
        in genSplit_loop (n2 - 1) s sep)"

definition Split :: "string \<Rightarrow> char \<Rightarrow> string list" where
  "Split s sep = SplitN s sep (- 1)"

definition ContainsAny :: "string \<Rightarrow> string \<Rightarrow> bool" where
  "ContainsAny s chars = list_ex (\<lambda>c. c \<in> set chars) s"

definition ContainsRune :: "string \<Rightarrow> char \<Rightarrow> bool" where
  "ContainsRune s r = (r \<in> set s)"

fun IndexFunc :: "string \<Rightarrow> (char \<Rightarrow> bool) \<Rightarrow> nat option" where
  "IndexFunc [] f = None"
| "IndexFunc (c # cs) f = (if f c then Some 0 else map_option Suc (IndexFunc cs f))"

text \<open>
  \<open>strconv.ParseUint(s, 10, 64)\<close>. The loop keeps the value in a 64-bit word and
  reports a range error before a multiplication or an addition would wrap; it returns
  the value together with the error, as the Go function does.
\<close>

definition maxUint64 :: "64 word" where
  "maxUint64 = - 1"

definition cutoff :: "64 word" where
  "cutoff = maxUint64 div 10 + 1"

fun ParseUint_loop :: "64 word \<Rightarrow> string \<Rightarrow> 64 word \<times> num_err option" where
  "ParseUint_loop n [] = (n, None)"
| "ParseUint_loop n (c # cs) =
     (if \<not> (48 \<le> (of_char c :: nat) \<and> (of_char c :: nat) \<le> 57) then (0, Some ErrSyntax)
      else
        let d = (of_nat (of_char c - 48) :: 64 word) in
        if cutoff \<le> n then (maxUint64, Some ErrRange)
        else
          let n10 = n * 10; n1 = n10 + d in
          if n1 < n10 \<or> maxUint64 < n1 then (maxUint64, Some ErrRange)
          else ParseUint_loop n1 cs)"

definition ParseUint :: "string \<Rightarrow> 64 word \<times> error option" where
  "ParseUint s =
     (if s = [] then (0, Some (NumError ''ParseUint'' s ErrSyntax))
      else
        case ParseUint_loop 0 s of
          (n, None) \<Rightarrow> (n, None)
        | (n, Some e) \<Rightarrow> (n, Some (NumError ''ParseUint'' s e)))"

text \<open>The verb \<open>%d\<close> on a non-negative integer: its decimal digits.\<close>

fun fmt_d :: "nat \<Rightarrow> string" where
  "fmt_d u = (if 10 \<le> u then fmt_d (u div 10) @ [char_of (48 + u mod 10)] else [char_of (48 + u)])"

declare fmt_d.simps [simp del]

text \<open>
  The verb \<open>%q\<close> is \<open>strconv.Quote\<close>. A string of printable ASCII bytes without a
  double quote or a backslash is put between double quotes as it is. Any other string is
  escaped in a way that depends on Unicode tables outside this package; that rendering
  is the parameter \<open>esc\<close>.
\<close>

definition plain :: "char \<Rightarrow> bool" where
  "plain c = (32 \<le> (of_char c :: nat) \<and> (of_char c :: nat) < 127 \<and> c \<noteq> CHR 0x22 \<and> c \<noteq> CHR 0x5C)"

definition Quote :: "(string \<Rightarrow> string) \<Rightarrow> string \<Rightarrow> string" where
  "Quote esc s = (if list_all plain s then [CHR 0x22] @ s @ [CHR 0x22] else esc s)"

section \<open>The package's own functions\<close>

definition num :: string where
  "num = ''0123456789''"

definition allowed :: string where
  "allowed = ''abcdefghijklmnopqrstuvwxyzABCDEFGHIJKLMNOPQRSTUVWXYZ-'' @ num"

definition numToName :: "nat \<Rightarrow> fault + string" where
  "numToName i =
     (if i = 0 then Inr ''major''
      else if i = 1 then Inr ''minor''
      else if i = 2 then Inr ''patch''
      else Inl (Panic ''Invalid part number''))"

definition containsOnly :: "string \<Rightarrow> string \<Rightarrow> bool" where
  "containsOnly s chars = (IndexFunc s (\<lambda>r. \<not> ContainsRune chars r) = None)"


subsection \<open>The blocks of \<open>Validate\<close>\<close>

text \<open>
  Lines 50 to 63: the third piece is trimmed from right to left. When it holds a
  \<open>+\<close> or a \<open>-\<close>, it is first cut once at \<open>+\<close> (the right part is the metadata), and
  what is left is cut once at \<open>-\<close> (the right part is the pre-release).
\<close>

definition Validate_meta :: "string list \<Rightarrow> version \<Rightarrow> fault + (string list \<times> version)" where
  "Validate_meta parts v =
     bindF (at parts 2) (\<lambda>p2.
       let tmp = SplitN p2 (CHR ''+'') 2 in
       if 1 < length tmp then
         bindF (at tmp 1) (\<lambda>t1.
         bindF (at tmp 0) (\<lambda>t0.
         bindF (upd parts 2 t0) (\<lambda>parts'.
           Inr (parts', v\<lparr>metadata := t1\<rparr>))))
       else Inr (parts, v))"

definition Validate_pre :: "string list \<Rightarrow> version \<Rightarrow> fault + (string list \<times> version)" where
  "Validate_pre parts v =
     bindF (at parts 2) (\<lambda>p2.
       let tmp = SplitN p2 (CHR ''-'') 2 in
       if 1 < length tmp then
         bindF (at tmp 1) (\<lambda>t1.
         bindF (at tmp 0) (\<lambda>t0.
         bindF (upd parts 2 t0) (\<lambda>parts'.
           Inr (parts', v\<lparr>pre := t1\<rparr>))))
       else Inr (parts, v))"

definition Validate_trim :: "string list \<Rightarrow> version \<Rightarrow> fault + (string list \<times> version)" where
  "Validate_trim parts v =
     bindF (at parts 2) (\<lambda>p2.
       if ContainsAny p2 ''-+'' then
         bindF (Validate_meta parts v) (\<lambda>(parts', v'). Validate_pre parts' v')
       else Inr (parts, v))"

text \<open>
  Lines 67 to 78: the loop \<open>for i, p := range parts\<close>, started at index \<open>i\<close> on the
  pieces still to visit. \<open>p[0]\<close> is read only when \<open>len(p) > 1\<close>.
\<close>

fun Validate_segments ::
  "(string \<Rightarrow> string) \<Rightarrow> nat \<Rightarrow> string list \<Rightarrow> string list \<Rightarrow> fault + (string list) step" where
  "Validate_segments esc i [] messages = Inr (Next messages)"
| "Validate_segments esc i (p # ps) messages =
     (if \<not> containsOnly p num then
        bindF (numToName i) (\<lambda>name.
          Inr (Return ErrInvalidCharacters
            (messages @ [''Illegal non-numeric characters found in '' @ Quote esc name @ '' part''])))
      else if 1 < length p \<and> p ! 0 = CHR ''0'' then
        bindF (numToName i) (\<lambda>name.
          Inr (Return ErrSegmentStartsZero
            (messages @ [''Illegal leading 0 found in '' @ Quote esc name @ '' part''])))
      else Validate_segments esc (Suc i) ps messages)"

text \<open>Lines 80 to 101: the three segments are parsed in order.\<close>

definition Validate_parse ::
  "string list \<Rightarrow> version \<Rightarrow> string list \<Rightarrow> fault + (version \<times> string list) step" where
  "Validate_parse parts v messages =
     bindF (at parts 0) (\<lambda>p0.
       case ParseUint p0 of (n0, err0) \<Rightarrow>
       let v0 = v\<lparr>major := n0\<rparr> in
       case err0 of
         Some e \<Rightarrow> Inr (Return e (messages @
           [''Unable to parse major part. Must be valid numeric characters [0-9]'']))
       | None \<Rightarrow>
       let messages0 = messages @ [''Found major version of '' @ fmt_d (unat (major v0))] in
       bindF (at parts 1) (\<lambda>p1.
       case ParseUint p1 of (n1, err1) \<Rightarrow>
       let v1 = v0\<lparr>minor := n1\<rparr> in
       case err1 of
         Some e \<Rightarrow> Inr (Return e (messages0 @
           [''Unable to parse minor part. Must be valid numeric characters [0-9]'']))
       | None \<Rightarrow>
       let messages1 = messages0 @ [''Found minor version of '' @ fmt_d (unat (minor v1))] in
       bindF (at parts 2) (\<lambda>p2.
       case ParseUint p2 of (n2, err2) \<Rightarrow>
       let v2 = v1\<lparr>patch := n2\<rparr> in
       case err2 of
         Some e \<Rightarrow> Inr (Return e (messages1 @
           [''Unable to parse patch part. Must be valid numeric characters [0-9]'']))
       | None \<Rightarrow>
       let messages2 = messages1 @ [''Found patch version of '' @ fmt_d (unat (patch v2))] in
       Inr (Next (v2, messages2)))))"

text \<open>Lines 105 to 115: the loop over the identifiers of the pre-release.\<close>

fun Validate_pre_ids ::
  "(string \<Rightarrow> string) \<Rightarrow> string list \<Rightarrow> string list \<Rightarrow> (string list) step" where
  "Validate_pre_ids esc [] messages = Next messages"
| "Validate_pre_ids esc (p # ps) messages =
     (if containsOnly p num then
        (if 1 < length p \<and> p ! 0 = CHR ''0'' then
           Return ErrSegmentStartsZero
             (messages @ [''Illegal leading 0 found in pre-release numeric part '' @ Quote esc p])
         else Validate_pre_ids esc ps messages)
      else if \<not> containsOnly p allowed then
        Return ErrInvalidCharacters
          (messages @ [''Illegal characters found in pre-release non-numeric part '' @ Quote esc p
             @ ''. Must be [0-9A-Za-z-]''])
      else Validate_pre_ids esc ps messages)"

text \<open>Lines 103 to 118.\<close>

definition Validate_prerelease ::
  "(string \<Rightarrow> string) \<Rightarrow> version \<Rightarrow> string list \<Rightarrow> (string list) step" where
  "Validate_prerelease esc v messages =
     (if pre v \<noteq> [] then
        case Validate_pre_ids esc (Split (pre v) (CHR ''.'')) messages of
          Return e ms \<Rightarrow> Return e ms
        | Next ms \<Rightarrow> Next (ms @
            [''Version is a pre-release version rather than a stable release version with a pre-release identifier of ''
               @ Quote esc (pre v),
             ''NOTICE: A pre-release version indicates that the version is unstable and might not satisfy the intended compatibility requirements as denoted by its associated normal version.''])
      else Next messages)"

text \<open>Lines 122 to 127: the loop over the identifiers of the build metadata.\<close>

fun Validate_meta_ids ::
  "(string \<Rightarrow> string) \<Rightarrow> string list \<Rightarrow> string list \<Rightarrow> (string list) step" where
  "Validate_meta_ids esc [] messages = Next messages"
| "Validate_meta_ids esc (p # ps) messages =
     (if \<not> containsOnly p allowed then
        Return ErrInvalidCharacters
          (messages @ [''Illegal characters found in metadata part '' @ Quote esc p
             @ ''. Must be [0-9A-Za-z-]''])
      else Validate_meta_ids esc ps messages)"

text \<open>Lines 120 to 130.\<close>

definition Validate_metadata ::
  "(string \<Rightarrow> string) \<Rightarrow> version \<Rightarrow> string list \<Rightarrow> (string list) step" where
  "Validate_metadata esc v messages =
     (if metadata v \<noteq> [] then
        case Validate_meta_ids esc (Split (metadata v) (CHR ''.'')) messages of
          Return e ms \<Rightarrow> Return e ms
        | Next ms \<Rightarrow> Next (ms @
            [''Found build metadate on version of '' @ Quote esc (metadata v),
             ''NOTICE: Build metadata MUST be ignored when determining version precedence. Thus two versions that differ only in the build metadata, have the same precedence.''])
      else Next messages)"

subsection \<open>\<open>Validate\<close>\<close>

text \<open>
  The result is the pair of the error (\<open>None\<close> for \<open>nil\<close>: the version is valid) and
  the messages, or a panic.
\<close>

definition Validate :: "(string \<Rightarrow> string) \<Rightarrow> string \<Rightarrow> fault + (error option \<times> string list)" where
  "Validate esc ver =
     (if length ver = 0 then Inr (Some ErrEmptyString, [])
      else
        let parts = SplitN ver (CHR ''.'') 3 in
        if length parts \<noteq> 3 then
          Inr (Some ErrInvalidNumberParts,
               [''Found '' @ fmt_d (length parts) @ '' number of parts''])
        else
          bindF (Validate_trim parts version_zero) (\<lambda>(parts', v).
          bindF (Validate_segments esc 0 parts' []) (\<lambda>r1.
          case r1 of
            Return e ms \<Rightarrow> Inr (Some e, ms)
          | Next messages1 \<Rightarrow>
          bindF (Validate_parse parts' v messages1) (\<lambda>r2.
          case r2 of
            Return e ms \<Rightarrow> Inr (Some e, ms)
          | Next (v', messages2) \<Rightarrow>
          case Validate_prerelease esc v' messages2 of
            Return e ms \<Rightarrow> Inr (Some e, ms)
          | Next messages3 \<Rightarrow>
          case Validate_metadata esc v' messages3 of
            Return e ms \<Rightarrow> Inr (Some e, ms)
          | Next messages4 \<Rightarrow> Inr (None, messages4)))))"


section \<open>Vocabulary of the properties\<close>

text \<open>The text before the first occurrence of a byte, and the text after it.\<close>

definition before :: "char \<Rightarrow> string \<Rightarrow> string" where
  "before c s = takeWhile (\<lambda>x. x \<noteq> c) s"

definition after :: "char \<Rightarrow> string \<Rightarrow> string" where
  "after c s = tl (dropWhile (\<lambda>x. x \<noteq> c) s)"

text \<open>
  What the trimming of the third piece \<open>c\<close> leaves: the build metadata, the pre-release
  and the patch segment.
\<close>

definition meta_part :: "string \<Rightarrow> string" where
  "meta_part c = (if CHR ''+'' \<in> set c then after (CHR ''+'') c else [])"

definition pre_part :: "string \<Rightarrow> string" where
  "pre_part c =
     (if CHR ''-'' \<in> set (before (CHR ''+'') c) then after (CHR ''-'') (before (CHR ''+'') c)
      else [])"

definition patch_part :: "string \<Rightarrow> string" where
  "patch_part c = before (CHR ''-'') (before (CHR ''+'') c)"

text \<open>The two checks on a segment, and the number a string of digits denotes.\<close>

definition leading_zero :: "string \<Rightarrow> bool" where
  "leading_zero p = (1 < length p \<and> p ! 0 = CHR ''0'')"

definition segment_ok :: "string \<Rightarrow> bool" where
  "segment_ok p = (containsOnly p num \<and> \<not> leading_zero p)"

definition digits_val :: "string \<Rightarrow> nat" where
  "digits_val s = foldl (\<lambda>n c. 10 * n + (of_char c - 48)) 0 s"

text \<open>A segment that passes the checks and parses: not empty and below \<open>2 ^ 64\<close>.\<close>

definition segment_parses :: "string \<Rightarrow> bool" where
  "segment_parses p = (segment_ok p \<and> p \<noteq> [] \<and> digits_val p < 2 ^ 64)"

text \<open>The messages of a valid version.\<close>

definition found_lines :: "string \<Rightarrow> string \<Rightarrow> string \<Rightarrow> string list" where
  "found_lines a b c =
     [''Found major version of '' @ fmt_d (digits_val a),
      ''Found minor version of '' @ fmt_d (digits_val b),
      ''Found patch version of '' @ fmt_d (digits_val c)]"

definition pre_lines :: "(string \<Rightarrow> string) \<Rightarrow> string \<Rightarrow> string list" where
  "pre_lines esc s =
     (if s = [] then []
      else
        [''Version is a pre-release version rather than a stable release version with a pre-release identifier of ''
           @ Quote esc s,
         ''NOTICE: A pre-release version indicates that the version is unstable and might not satisfy the intended compatibility requirements as denoted by its associated normal version.''])"

definition meta_lines :: "(string \<Rightarrow> string) \<Rightarrow> string \<Rightarrow> string list" where
  "meta_lines esc s =
     (if s = [] then []
      else
        [''Found build metadate on version of '' @ Quote esc s,
         ''NOTICE: Build metadata MUST be ignored when determining version precedence. Thus two versions that differ only in the build metadata, have the same precedence.''])"

text \<open>An identifier that the pre-release loop passes, and one that the metadata loop passes.\<close>

definition pre_id_ok :: "string \<Rightarrow> bool" where
  "pre_id_ok p = (if containsOnly p num then \<not> leading_zero p else containsOnly p allowed)"

definition meta_id_ok :: "string \<Rightarrow> bool" where
  "meta_id_ok p = containsOnly p allowed"


section \<open>Splitting and trimming\<close>

lemma Index_None_iff: "(Index s c = None) = (c \<notin> set s)"
  by (induction s) auto

lemma Index_Some: "c \<in> set s \<Longrightarrow> Index s c = Some (length (before c s))"
  by (induction s) (auto simp: before_def)

lemma take_before: "take (length (before c s)) s = before c s"
  unfolding before_def by (induction s) auto

lemma drop_before: "drop (Suc (length (before c s))) s = after c s"
  unfolding before_def after_def by (induction s) auto

lemma genSplit_loop_Suc:
  "genSplit_loop (Suc k) s c =
     (if c \<in> set s then before c s # genSplit_loop k (after c s) c else [s])"
  by (cases "c \<in> set s") (simp_all add: Index_Some take_before drop_before Index_None_iff [THEN iffD2])

lemma genSplit_loop_notin: "c \<notin> set s \<Longrightarrow> genSplit_loop k s c = [s]"
  by (cases k) (simp_all add: Index_None_iff [THEN iffD2])

lemma SplitN_2: "SplitN s c 2 = (if c \<in> set s then [before c s, after c s] else [s])"
proof (cases s)
  case Nil
  then show ?thesis by (simp add: SplitN_def)
next
  case (Cons x xs)
  then have "SplitN s c 2 = genSplit_loop (Suc 0) s c"
    by (simp add: SplitN_def)
  then show ?thesis by (simp add: genSplit_loop_Suc del: genSplit_loop.simps(2))
qed

lemma SplitN_3:
  assumes ne: "s \<noteq> []"
  shows "SplitN s c 3 =
     (if c \<in> set s then
        (if c \<in> set (after c s) then [before c s, before c (after c s), after c (after c s)]
         else [before c s, after c s])
      else [s])"
proof (cases "c \<in> set s")
  case False
  then show ?thesis
    by (simp add: SplitN_def Let_def genSplit_loop_notin)
next
  case True
  have "SplitN s c 3 = genSplit_loop (Suc 0) s c \<and> length s = 1
      \<or> SplitN s c 3 = genSplit_loop (Suc (Suc 0)) s c"
    using ne by (cases s; cases "tl s") (auto simp add: SplitN_def Let_def numeral_2_eq_2)
  then show ?thesis
  proof
    assume a: "SplitN s c 3 = genSplit_loop (Suc 0) s c \<and> length s = 1"
    then have "after c s = []"
      unfolding after_def by (cases s) (auto split: if_splits)
    with a True show ?thesis
      by (simp add: genSplit_loop_Suc del: genSplit_loop.simps(2))
  next
    assume "SplitN s c 3 = genSplit_loop (Suc (Suc 0)) s c"
    with True show ?thesis
      by (simp add: genSplit_loop_Suc genSplit_loop_notin del: genSplit_loop.simps(2))
  qed
qed


lemma before_notin: "c \<notin> set s \<Longrightarrow> before c s = s"
  by (auto simp add: before_def)

lemma set_before: "set (before c s) \<subseteq> set s"
  unfolding before_def by (auto dest: set_takeWhileD)

lemma Validate_trim_3:
  "Validate_trim [a, b, c] version_zero =
     Inr ([a, b, patch_part c], version_zero\<lparr>pre := pre_part c, metadata := meta_part c\<rparr>)"
proof -
  have sub: "CHR ''-'' \<in> set (before (CHR ''+'') c) \<Longrightarrow> CHR ''-'' \<in> set c"
    using set_before by fastforce
  show ?thesis
    by (auto simp add: Validate_trim_def Validate_meta_def Validate_pre_def bindF_def at_def
        upd_def SplitN_2 ContainsAny_def list_ex_iff meta_part_def pre_part_def patch_part_def
        before_notin version_zero_def dest: sub)
qed


lemma numToName_simps:
  "numToName 0 = Inr ''major''"
  "numToName (Suc 0) = Inr ''minor''"
  "numToName (Suc (Suc 0)) = Inr ''patch''"
  by (simp_all add: numToName_def)

lemma plain_names:
  "list_all plain ''major''" "list_all plain ''minor''" "list_all plain ''patch''"
  by (simp_all add: plain_def)

lemma Quote_names:
  "Quote esc ''major'' = [CHR 0x22] @ ''major'' @ [CHR 0x22]"
  "Quote esc ''minor'' = [CHR 0x22] @ ''minor'' @ [CHR 0x22]"
  "Quote esc ''patch'' = [CHR 0x22] @ ''patch'' @ [CHR 0x22]"
  unfolding Quote_def using plain_names by simp_all

text \<open>The segment loop on three pieces.\<close>

lemma Validate_segments_3:
  "Validate_segments esc 0 [a, b, c] [] =
     Inr (if \<not> containsOnly a num then
            Return ErrInvalidCharacters [''Illegal non-numeric characters found in '' @ Quote esc ''major'' @ '' part'']
          else if leading_zero a then
            Return ErrSegmentStartsZero [''Illegal leading 0 found in '' @ Quote esc ''major'' @ '' part'']
          else if \<not> containsOnly b num then
            Return ErrInvalidCharacters [''Illegal non-numeric characters found in '' @ Quote esc ''minor'' @ '' part'']
          else if leading_zero b then
            Return ErrSegmentStartsZero [''Illegal leading 0 found in '' @ Quote esc ''minor'' @ '' part'']
          else if \<not> containsOnly c num then
            Return ErrInvalidCharacters [''Illegal non-numeric characters found in '' @ Quote esc ''patch'' @ '' part'']
          else if leading_zero c then
            Return ErrSegmentStartsZero [''Illegal leading 0 found in '' @ Quote esc ''patch'' @ '' part'']
          else Next [])"
  by (simp add: numToName_simps bindF_def leading_zero_def)

lemma Validate_segments_total:
  "i + length ps \<le> 3 \<Longrightarrow> \<exists>r. Validate_segments esc i ps ms = Inr r"
proof (induction ps arbitrary: i)
  case Nil
  show ?case by simp
next
  case (Cons p ps)
  then have "i \<le> 2" by simp
  then have "\<exists>n. numToName i = Inr n"
    by (auto simp add: numToName_def)
  moreover have "\<exists>r. Validate_segments esc (Suc i) ps ms = Inr r"
    using Cons by simp
  ultimately show ?case
    by (auto simp add: bindF_def)
qed

lemma Validate_parse_total:
  "\<exists>r. Validate_parse [a, b, c] v ms = Inr r"
  by (simp add: Validate_parse_def bindF_def at_def Let_def split: prod.splits option.splits)

lemma length_3: "length xs = 3 \<Longrightarrow> \<exists>a b c. xs = [a, b, c]"
  by (cases xs; cases "tl xs"; cases "tl (tl xs)") auto

lemma Validate_total: "\<exists>e ms. Validate esc ver = Inr (e, ms)"
proof (cases "ver = [] \<or> length (SplitN ver (CHR ''.'') 3) \<noteq> 3")
  case True
  then show ?thesis by (auto simp add: Validate_def Let_def)
next
  case False
  then obtain a b c where abc: "SplitN ver (CHR ''.'') 3 = [a, b, c]"
    using length_3 by blast
  obtain r1 where r1: "Validate_segments esc 0 [a, b, patch_part c] [] = Inr r1"
    using Validate_segments_total [of 0 "[a, b, patch_part c]"] by auto
  show ?thesis
  proof (cases r1)
    case (Return e ms)
    with False abc r1 show ?thesis
      by (simp add: Validate_def Validate_trim_3 bindF_def)
  next
    case (Next ms1)
    obtain r2 where r2: "Validate_parse [a, b, patch_part c]
      (version_zero\<lparr>pre := pre_part c, metadata := meta_part c\<rparr>) ms1 = Inr r2"
      using Validate_parse_total by blast
    with False abc r1 Next show ?thesis
      by (simp add: Validate_def Validate_trim_3 bindF_def split: step.splits prod.splits)
  qed
qed


section \<open>Digits and parsing\<close>

lemma IndexFunc_None_iff: "(IndexFunc s f = None) = (\<forall>c\<in>set s. \<not> f c)"
  by (induction s) auto

lemma containsOnly_iff: "containsOnly s cs = (\<forall>c\<in>set s. c \<in> set cs)"
  by (simp add: containsOnly_def IndexFunc_None_iff ContainsRune_def)

lemma char_of_digits:
  "char_of (48::nat) = CHR ''0''" "char_of (49::nat) = CHR ''1''" "char_of (50::nat) = CHR ''2''"
  "char_of (51::nat) = CHR ''3''" "char_of (52::nat) = CHR ''4''" "char_of (53::nat) = CHR ''5''"
  "char_of (54::nat) = CHR ''6''" "char_of (55::nat) = CHR ''7''" "char_of (56::nat) = CHR ''8''"
  "char_of (57::nat) = CHR ''9''"
  by code_simp+

lemma num_range: "(c \<in> set num) = (48 \<le> (of_char c :: nat) \<and> (of_char c :: nat) \<le> 57)"
proof
  assume "c \<in> set num"
  then show "48 \<le> (of_char c :: nat) \<and> (of_char c :: nat) \<le> 57"
    by (auto simp add: num_def)
next
  assume r: "48 \<le> (of_char c :: nat) \<and> (of_char c :: nat) \<le> 57"
  define k where "k = (of_char c :: nat) - 48"
  have k: "k \<le> 9" "(of_char c :: nat) = 48 + k" using r unfolding k_def by linarith+
  have c: "c = char_of (48 + k)" using k(2) by (metis char_of_comp_of_char comp_apply id_apply)
  from k(1) have "k \<in> {0, 1, 2, 3, 4, 5, 6, 7, 8, 9}" by auto
  then show "c \<in> set num"
    unfolding c using char_of_digits by (auto simp add: num_def)
qed

lemma cutoff_val: "unat cutoff = 1844674407370955162"
  by (simp add: cutoff_def maxUint64_def unat_div unat_word_ariths)


lemma foldl_digits_mono: "(m::nat) \<le> foldl (\<lambda>n c. 10 * n + (of_char c - 48)) m s"
proof (induction s arbitrary: m)
  case Nil
  show ?case by simp
next
  case (Cons c cs)
  have "m \<le> 10 * m + (of_char c - 48)" by simp
  also have "\<dots> \<le> foldl (\<lambda>n c. 10 * n + (of_char c - 48)) (10 * m + (of_char c - 48)) cs"
    by (rule Cons.IH)
  finally show ?case by simp
qed

lemma ParseUint_loop_digits:
  assumes "\<forall>c\<in>set s. c \<in> set num"
  shows "ParseUint_loop n s =
     (if foldl (\<lambda>n c. 10 * n + (of_char c - 48)) (unat n) s < 2 ^ 64
      then (of_nat (foldl (\<lambda>n c. 10 * n + (of_char c - 48)) (unat n) s), None)
      else (maxUint64, Some ErrRange))"
  using assms
proof (induction s arbitrary: n)
  case Nil
  have "unat n < 2 ^ 64" using unsigned_less [of n] by simp
  then show ?case by simp
next
  case (Cons c cs)
  define d where "d = (of_char c :: nat) - 48"
  have dig: "48 \<le> (of_char c :: nat) \<and> (of_char c :: nat) \<le> 57"
    using Cons.prems num_range by simp
  then have d9: "d \<le> 9" unfolding d_def by linarith
  have fold: "foldl (\<lambda>n c. 10 * n + (of_char c - 48)) (unat n) (c # cs)
      = foldl (\<lambda>n c. 10 * n + (of_char c - 48)) (10 * unat n + d) cs"
    by (simp add: d_def)
  show ?case
  proof (cases "cutoff \<le> n")
    case True
    then have "1844674407370955162 \<le> unat n"
      by (simp add: word_le_nat_alt cutoff_val)
    then have "2 ^ 64 \<le> 10 * unat n + d" by simp
    also have "\<dots> \<le> foldl (\<lambda>n c. 10 * n + (of_char c - 48)) (10 * unat n + d) cs"
      by (rule foldl_digits_mono)
    finally have "\<not> foldl (\<lambda>n c. 10 * n + (of_char c - 48)) (unat n) (c # cs) < 2 ^ 64"
      unfolding fold by simp
    with True dig show ?thesis by simp
  next
    case False
    then have small: "unat n \<le> 1844674407370955161"
      by (simp add: word_le_nat_alt cutoff_val)
    then have n10: "unat (n * 10) = 10 * unat n"
      by (simp add: unat_word_ariths)
    have ud: "unat (of_nat d :: 64 word) = d"
      using d9 by (simp add: unat_of_nat)
    show ?thesis
    proof (cases "10 * unat n + d < 2 ^ 64")
      case True
      then have n1: "unat (n * 10 + of_nat d) = 10 * unat n + d"
        using n10 ud by (simp add: unat_word_ariths)
      then have nowrap: "\<not> (n * 10 + of_nat d < n * 10)"
        by (simp add: word_less_nat_alt n10)
      have notmax: "\<not> (maxUint64 < n * 10 + of_nat d)"
        by (simp add: maxUint64_def)
      have "ParseUint_loop n (c # cs) = ParseUint_loop (n * 10 + of_nat d) cs"
        using dig False nowrap notmax by (simp add: d_def Let_def)
      also have "\<dots> = (if foldl (\<lambda>n c. 10 * n + (of_char c - 48)) (10 * unat n + d) cs < 2 ^ 64
          then (of_nat (foldl (\<lambda>n c. 10 * n + (of_char c - 48)) (10 * unat n + d) cs), None)
          else (maxUint64, Some ErrRange))"
        using Cons.IH [of "n * 10 + of_nat d"] Cons.prems n1 by simp
      finally show ?thesis unfolding fold .
    next
      case over: False
      have "unat (n * 10 + of_nat d) = (10 * unat n + d) mod 2 ^ 64"
        using n10 ud by (simp add: unat_word_ariths)
      also have "\<dots> = 10 * unat n + d - 2 ^ 64"
        using over small d9 by (simp add: mod_if)
      finally have "unat (n * 10 + of_nat d) < unat (n * 10)"
        using n10 over d9 by simp
      then have wrap: "n * 10 + of_nat d < n * 10"
        by (simp add: word_less_nat_alt)
      have "2 ^ 64 \<le> 10 * unat n + d" using over by simp
      also have "\<dots> \<le> foldl (\<lambda>n c. 10 * n + (of_char c - 48)) (10 * unat n + d) cs"
        by (rule foldl_digits_mono)
      finally have "\<not> foldl (\<lambda>n c. 10 * n + (of_char c - 48)) (unat n) (c # cs) < 2 ^ 64"
        unfolding fold by simp
      with False dig wrap show ?thesis by (simp add: d_def Let_def)
    qed
  qed
qed

lemma ParseUint_digits:
  assumes "containsOnly s num"
  shows "ParseUint s =
     (if s = [] then (0, Some (NumError ''ParseUint'' s ErrSyntax))
      else if digits_val s < 2 ^ 64 then (of_nat (digits_val s), None)
      else (maxUint64, Some (NumError ''ParseUint'' s ErrRange)))"
  using assms ParseUint_loop_digits [of s 0]
  by (simp add: ParseUint_def containsOnly_iff digits_val_def)


section \<open>The blocks of \<open>Validate\<close>, one by one\<close>

lemma unat_digits_val: "digits_val p < 2 ^ 64 \<Longrightarrow> unat (of_nat (digits_val p) :: 64 word) = digits_val p"
  by (simp add: unat_of_nat)

lemma SplitN_3_nonempty: "SplitN ver c 3 = [x, y, z] \<Longrightarrow> ver \<noteq> []"
  by (auto simp add: SplitN_def)

text \<open>The parsing block on three segments that passed the checks.\<close>

lemma Validate_parse_3:
  assumes "containsOnly a num" and "containsOnly b num" and "containsOnly p num"
  shows "Validate_parse [a, b, p] v ms =
     Inr (if a = [] \<or> 2 ^ 64 \<le> digits_val a then
            Return (NumError ''ParseUint'' a (if a = [] then ErrSyntax else ErrRange))
              (ms @ [''Unable to parse major part. Must be valid numeric characters [0-9]''])
          else if b = [] \<or> 2 ^ 64 \<le> digits_val b then
            Return (NumError ''ParseUint'' b (if b = [] then ErrSyntax else ErrRange))
              (ms @ [''Found major version of '' @ fmt_d (digits_val a),
                     ''Unable to parse minor part. Must be valid numeric characters [0-9]''])
          else if p = [] \<or> 2 ^ 64 \<le> digits_val p then
            Return (NumError ''ParseUint'' p (if p = [] then ErrSyntax else ErrRange))
              (ms @ [''Found major version of '' @ fmt_d (digits_val a),
                     ''Found minor version of '' @ fmt_d (digits_val b),
                     ''Unable to parse patch part. Must be valid numeric characters [0-9]''])
          else
            Next (v\<lparr>major := of_nat (digits_val a), minor := of_nat (digits_val b),
                    patch := of_nat (digits_val p)\<rparr>,
                  ms @ found_lines a b p))"
  by (simp add: Validate_parse_def bindF_def at_def ParseUint_digits [OF assms(1)]
      ParseUint_digits [OF assms(2)] ParseUint_digits [OF assms(3)] unat_digits_val
      found_lines_def not_le)


text \<open>The two loops over identifiers.\<close>

lemma Validate_pre_ids_append:
  "list_all pre_id_ok xs \<Longrightarrow> Validate_pre_ids esc (xs @ ys) ms = Validate_pre_ids esc ys ms"
  by (induction xs) (auto simp add: pre_id_ok_def leading_zero_def)

lemma Validate_pre_ids_Next_iff:
  "(Validate_pre_ids esc ids ms = Next m) = (list_all pre_id_ok ids \<and> m = ms)"
  by (induction ids) (auto simp add: pre_id_ok_def leading_zero_def)

lemma Validate_pre_ids_Return:
  "Validate_pre_ids esc ids ms = Return e m \<Longrightarrow>
     (e = ErrSegmentStartsZero \<or> e = ErrInvalidCharacters) \<and> (\<exists>x. m = ms @ [x])"
  by (induction ids) (auto split: if_splits)

lemma Validate_meta_ids_append:
  "list_all meta_id_ok xs \<Longrightarrow> Validate_meta_ids esc (xs @ ys) ms = Validate_meta_ids esc ys ms"
  by (induction xs) (auto simp add: meta_id_ok_def)

lemma Validate_meta_ids_Next_iff:
  "(Validate_meta_ids esc ids ms = Next m) = (list_all meta_id_ok ids \<and> m = ms)"
  by (induction ids) (auto simp add: meta_id_ok_def)

lemma Validate_meta_ids_Return:
  "Validate_meta_ids esc ids ms = Return e m \<Longrightarrow>
     e = ErrInvalidCharacters \<and> (\<exists>x. m = ms @ [x])"
  by (induction ids) (auto split: if_splits)

lemma Validate_pre_ids_ok: "list_all pre_id_ok ids \<Longrightarrow> Validate_pre_ids esc ids ms = Next ms"
  by (simp add: Validate_pre_ids_Next_iff)

lemma Validate_meta_ids_ok: "list_all meta_id_ok ids \<Longrightarrow> Validate_meta_ids esc ids ms = Next ms"
  by (simp add: Validate_meta_ids_Next_iff)

lemma Validate_prerelease_Next_iff:
  "(Validate_prerelease esc v ms = Next m) =
     ((pre v \<noteq> [] \<longrightarrow> list_all pre_id_ok (Split (pre v) (CHR ''.''))) \<and> m = ms @ pre_lines esc (pre v))"
  by (auto simp add: Validate_prerelease_def pre_lines_def Validate_pre_ids_Next_iff Validate_pre_ids_ok split: step.splits)

lemma Validate_prerelease_Return:
  "Validate_prerelease esc v ms = Return e m \<Longrightarrow>
     pre v \<noteq> [] \<and> Validate_pre_ids esc (Split (pre v) (CHR ''.'')) ms = Return e m"
  by (auto simp add: Validate_prerelease_def split: step.splits if_splits)

lemma Validate_metadata_Next_iff:
  "(Validate_metadata esc v ms = Next m) =
     ((metadata v \<noteq> [] \<longrightarrow> list_all meta_id_ok (Split (metadata v) (CHR ''.''))) \<and> m = ms @ meta_lines esc (metadata v))"
  by (auto simp add: Validate_metadata_def meta_lines_def Validate_meta_ids_Next_iff Validate_meta_ids_ok split: step.splits)

lemma Validate_metadata_Return:
  "Validate_metadata esc v ms = Return e m \<Longrightarrow>
     metadata v \<noteq> [] \<and> Validate_meta_ids esc (Split (metadata v) (CHR ''.'')) ms = Return e m"
  by (auto simp add: Validate_metadata_def split: step.splits if_splits)

text \<open>\<open>Validate\<close> on an input of three pieces, block by block.\<close>

lemma Validate_3:
  assumes "SplitN ver (CHR ''.'') 3 = [a, b, c]"
  shows "Validate esc ver =
     bindF (Validate_segments esc 0 [a, b, patch_part c] []) (\<lambda>r1.
       case r1 of
         Return e ms \<Rightarrow> Inr (Some e, ms)
       | Next messages1 \<Rightarrow>
       bindF (Validate_parse [a, b, patch_part c]
                (version_zero\<lparr>pre := pre_part c, metadata := meta_part c\<rparr>) messages1) (\<lambda>r2.
       case r2 of
         Return e ms \<Rightarrow> Inr (Some e, ms)
       | Next (v', messages2) \<Rightarrow>
       case Validate_prerelease esc v' messages2 of
         Return e ms \<Rightarrow> Inr (Some e, ms)
       | Next messages3 \<Rightarrow>
       case Validate_metadata esc v' messages3 of
         Return e ms \<Rightarrow> Inr (Some e, ms)
       | Next messages4 \<Rightarrow> Inr (None, messages4)))"
  using assms SplitN_3_nonempty [OF assms]
  by (simp add: Validate_def Validate_trim_3 bindF_def del: Validate_segments.simps
      split: sum.splits step.splits prod.splits)

text \<open>The first segment that fails a check decides, whatever comes after it.\<close>

lemma Validate_check_fails:
  assumes "SplitN ver (CHR ''.'') 3 = [a, b, c]"
    and "\<not> (segment_ok a \<and> segment_ok b \<and> segment_ok (patch_part c))"
  shows "Validate esc ver =
     Inr (if \<not> containsOnly a num then
            (Some ErrInvalidCharacters, [''Illegal non-numeric characters found in '' @ Quote esc ''major'' @ '' part''])
          else if leading_zero a then
            (Some ErrSegmentStartsZero, [''Illegal leading 0 found in '' @ Quote esc ''major'' @ '' part''])
          else if \<not> containsOnly b num then
            (Some ErrInvalidCharacters, [''Illegal non-numeric characters found in '' @ Quote esc ''minor'' @ '' part''])
          else if leading_zero b then
            (Some ErrSegmentStartsZero, [''Illegal leading 0 found in '' @ Quote esc ''minor'' @ '' part''])
          else if \<not> containsOnly (patch_part c) num then
            (Some ErrInvalidCharacters, [''Illegal non-numeric characters found in '' @ Quote esc ''patch'' @ '' part''])
          else
            (Some ErrSegmentStartsZero, [''Illegal leading 0 found in '' @ Quote esc ''patch'' @ '' part'']))"
  using assms(2) unfolding Validate_3 [OF assms(1)] Validate_segments_3
  by (auto simp add: bindF_def segment_ok_def)

text \<open>When the three segments pass the checks, parsing and the suffixes decide.\<close>

lemma Validate_checked:
  assumes "SplitN ver (CHR ''.'') 3 = [a, b, c]"
    and "segment_ok a" and "segment_ok b" and "segment_ok (patch_part c)"
  shows "Validate esc ver =
     (case Validate_parse [a, b, patch_part c]
             (version_zero\<lparr>pre := pre_part c, metadata := meta_part c\<rparr>) [] of
        Inl f \<Rightarrow> Inl f
      | Inr (Return e ms) \<Rightarrow> Inr (Some e, ms)
      | Inr (Next (v', messages2)) \<Rightarrow>
          (case Validate_prerelease esc v' messages2 of
             Return e ms \<Rightarrow> Inr (Some e, ms)
           | Next messages3 \<Rightarrow>
             (case Validate_metadata esc v' messages3 of
                Return e ms \<Rightarrow> Inr (Some e, ms)
              | Next messages4 \<Rightarrow> Inr (None, messages4))))"
  using assms(2-4) unfolding Validate_3 [OF assms(1)] Validate_segments_3
  by (simp add: bindF_def segment_ok_def split: sum.splits step.splits)

lemma Validate_parsed:
  assumes "SplitN ver (CHR ''.'') 3 = [a, b, c]"
    and "segment_parses a" and "segment_parses b" and "segment_parses (patch_part c)"
  shows "Validate esc ver =
     (case Validate_prerelease esc (version_zero\<lparr>pre := pre_part c, metadata := meta_part c\<rparr>)
             (found_lines a b (patch_part c)) of
        Return e ms \<Rightarrow> Inr (Some e, ms)
      | Next messages3 \<Rightarrow>
          (case Validate_metadata esc (version_zero\<lparr>pre := pre_part c, metadata := meta_part c\<rparr>)
                  messages3 of
             Return e ms \<Rightarrow> Inr (Some e, ms)
           | Next messages4 \<Rightarrow> Inr (None, messages4)))"
proof -
  have ok: "segment_ok a" "segment_ok b" "segment_ok (patch_part c)"
    using assms(2-4) by (simp_all add: segment_parses_def)
  have dig: "containsOnly a num" "containsOnly b num" "containsOnly (patch_part c) num"
    using ok by (simp_all add: segment_ok_def)
  have pre: "Validate_prerelease esc (v\<lparr>major := x, minor := y, patch := z\<rparr>) ms
      = Validate_prerelease esc v ms" for v x y z ms
    by (simp add: Validate_prerelease_def cong: step.case_cong)
  have meta: "Validate_metadata esc (v\<lparr>major := x, minor := y, patch := z\<rparr>) ms
      = Validate_metadata esc v ms" for v x y z ms
    by (simp add: Validate_metadata_def cong: step.case_cong)
  show ?thesis
    unfolding Validate_checked [OF assms(1) ok] Validate_parse_3 [OF dig]
    using assms(2-4) by (simp add: segment_parses_def pre meta cong: step.case_cong)
qed


lemma of_char_zero: "c \<in> set num \<Longrightarrow> ((of_char c :: nat) = 48) = (c = CHR ''0'')"
  by (auto simp add: num_def)

lemma char_of_digit: "c \<in> set num \<Longrightarrow> char_of (48 + ((of_char c :: nat) - 48)) = c"
  by (auto simp add: num_def char_of_digits)

lemma digits_val_snoc: "digits_val (q @ [c]) = 10 * digits_val q + (of_char c - 48)"
  by (simp add: digits_val_def)

lemma digits_val_pos:
  assumes "containsOnly q num" and "q \<noteq> []" and "q ! 0 \<noteq> CHR ''0''"
  shows "1 \<le> digits_val q"
proof -
  obtain x xs where q: "q = x # xs" using assms(2) by (cases q) auto
  have x: "x \<in> set num" "x \<noteq> CHR ''0''" using assms q by (auto simp add: containsOnly_iff)
  then have "49 \<le> (of_char x :: nat)" using of_char_zero [of x] num_range [of x] by linarith
  then have "1 \<le> (of_char x :: nat) - 48" by simp
  also have "\<dots> \<le> foldl (\<lambda>n c. 10 * n + (of_char c - 48)) ((of_char x :: nat) - 48) xs"
    by (rule foldl_digits_mono)
  finally show ?thesis by (simp add: q digits_val_def)
qed

lemma fmt_d_digits_val:
  "containsOnly p num \<Longrightarrow> p \<noteq> [] \<Longrightarrow> \<not> leading_zero p \<Longrightarrow> fmt_d (digits_val p) = p"
proof (induction p rule: rev_induct)
  case Nil
  then show ?case by simp
next
  case (snoc c q)
  have c: "c \<in> set num" using snoc.prems(1) by (simp add: containsOnly_iff)
  then have d9: "(of_char c :: nat) - 48 \<le> 9" using num_range [of c] by linarith
  show ?case
  proof (cases "q = []")
    case True
    then have "digits_val (q @ [c]) = of_char c - 48" by (simp add: digits_val_def)
    then show ?thesis using d9 True c by (simp add: fmt_d.simps char_of_digit)
  next
    case False
    have qd: "containsOnly q num" using snoc.prems(1) by (simp add: containsOnly_iff)
    have q0: "q ! 0 \<noteq> CHR ''0''"
      using snoc.prems(3) False by (cases q) (auto simp add: leading_zero_def)
    then have nl: "\<not> leading_zero q" by (simp add: leading_zero_def)
    have pos: "1 \<le> digits_val q" by (rule digits_val_pos [OF qd False q0])
    have "fmt_d (digits_val (q @ [c])) = fmt_d (digits_val q) @ [char_of (48 + ((of_char c :: nat) - 48))]"
      unfolding digits_val_snoc using pos d9 by (subst fmt_d.simps) simp
    then show ?thesis using snoc.IH [OF qd False nl] c by (simp add: char_of_digit)
  qed
qed

lemma segment_parses_fmt: "segment_parses p \<Longrightarrow> fmt_d (digits_val p) = p"
  by (simp add: segment_parses_def segment_ok_def fmt_d_digits_val)

lemma segment_parses_ParseUint:
  "segment_parses p \<Longrightarrow> ParseUint p = (of_nat (digits_val p), None)"
  by (simp add: segment_parses_def segment_ok_def ParseUint_digits)


text \<open>The valid versions, and their messages.\<close>

lemma Validate_valid_intro:
  assumes "SplitN ver (CHR ''.'') 3 = [a, b, c]"
    and "segment_parses a" and "segment_parses b" and "segment_parses (patch_part c)"
    and "pre_part c \<noteq> [] \<longrightarrow> list_all pre_id_ok (Split (pre_part c) (CHR ''.''))"
    and "meta_part c \<noteq> [] \<longrightarrow> list_all meta_id_ok (Split (meta_part c) (CHR ''.''))"
  shows "Validate esc ver =
     Inr (None, found_lines a b (patch_part c) @ pre_lines esc (pre_part c) @ meta_lines esc (meta_part c))"
proof -
  let ?v = "version_zero\<lparr>pre := pre_part c, metadata := meta_part c\<rparr>"
  have 1: "Validate_prerelease esc ?v (found_lines a b (patch_part c))
      = Next (found_lines a b (patch_part c) @ pre_lines esc (pre_part c))"
    using assms(5) by (simp add: Validate_prerelease_Next_iff)
  have 2: "Validate_metadata esc ?v (found_lines a b (patch_part c) @ pre_lines esc (pre_part c))
      = Next ((found_lines a b (patch_part c) @ pre_lines esc (pre_part c)) @ meta_lines esc (meta_part c))"
    using assms(6) by (simp add: Validate_metadata_Next_iff)
  show ?thesis
    unfolding Validate_parsed [OF assms(1-4)] 1 by (simp add: 2)
qed

lemma Validate_valid_elim:
  assumes "Validate esc ver = Inr (None, msgs)"
  shows "\<exists>a b c. SplitN ver (CHR ''.'') 3 = [a, b, c]
     \<and> segment_parses a \<and> segment_parses b \<and> segment_parses (patch_part c)
     \<and> (pre_part c \<noteq> [] \<longrightarrow> list_all pre_id_ok (Split (pre_part c) (CHR ''.'')))
     \<and> (meta_part c \<noteq> [] \<longrightarrow> list_all meta_id_ok (Split (meta_part c) (CHR ''.'')))
     \<and> msgs = found_lines a b (patch_part c) @ pre_lines esc (pre_part c) @ meta_lines esc (meta_part c)"
proof -
  have ne: "ver \<noteq> []" using assms by (auto simp add: Validate_def)
  have "length (SplitN ver (CHR ''.'') 3) = 3"
    using assms ne by (auto simp add: Validate_def Let_def split: if_splits)
  then obtain a b c where abc: "SplitN ver (CHR ''.'') 3 = [a, b, c]"
    using length_3 by blast
  let ?p = "patch_part c"
  let ?v = "version_zero\<lparr>pre := pre_part c, metadata := meta_part c\<rparr>"
  have ok: "segment_ok a \<and> segment_ok b \<and> segment_ok ?p"
  proof (rule ccontr)
    assume "\<not> ?thesis"
    from Validate_check_fails [OF abc this, of esc] assms show False
      by (simp split: if_splits)
  qed
  then have dig: "containsOnly a num" "containsOnly b num" "containsOnly ?p num"
    by (simp_all add: segment_ok_def)
  have parses: "segment_parses a \<and> segment_parses b \<and> segment_parses ?p"
  proof (rule ccontr)
    assume n: "\<not> ?thesis"
    have "Validate esc ver =
      (case Validate_parse [a, b, ?p] ?v [] of
        Inl f \<Rightarrow> Inl f
      | Inr (Return e ms) \<Rightarrow> Inr (Some e, ms)
      | Inr (Next (v', messages2)) \<Rightarrow>
          (case Validate_prerelease esc v' messages2 of
             Return e ms \<Rightarrow> Inr (Some e, ms)
           | Next messages3 \<Rightarrow>
             (case Validate_metadata esc v' messages3 of
                Return e ms \<Rightarrow> Inr (Some e, ms)
              | Next messages4 \<Rightarrow> Inr (None, messages4))))"
      using Validate_checked [OF abc] ok by blast
    with n ok assms show False
      unfolding Validate_parse_3 [OF dig]
      by (simp add: segment_parses_def not_less split: if_splits)
  qed
  obtain m3 where m3: "Validate_prerelease esc ?v (found_lines a b ?p) = Next m3"
    and m4: "Validate_metadata esc ?v m3 = Next msgs"
    using assms parses unfolding Validate_parsed [OF abc parses [THEN conjunct1]
        parses [THEN conjunct2, THEN conjunct1] parses [THEN conjunct2, THEN conjunct2]]
    by (auto split: step.splits)
  from m3 m4 abc parses show ?thesis
    by (auto simp add: Validate_prerelease_Next_iff Validate_metadata_Next_iff)
qed

text \<open>Every result but the one for the empty string carries a message.\<close>

lemma Validate_messages:
  assumes "ver \<noteq> []" and "Validate esc ver = Inr (e, ms)"
  shows "ms \<noteq> []"
proof (cases "length (SplitN ver (CHR ''.'') 3) = 3")
  case False
  with assms show ?thesis by (auto simp add: Validate_def Let_def)
next
  case True
  then obtain a b c where abc: "SplitN ver (CHR ''.'') 3 = [a, b, c]"
    using length_3 by blast
  let ?p = "patch_part c"
  let ?v = "version_zero\<lparr>pre := pre_part c, metadata := meta_part c\<rparr>"
  show ?thesis
  proof (cases "segment_ok a \<and> segment_ok b \<and> segment_ok ?p")
    case False
    from Validate_check_fails [OF abc False, of esc] assms(2) show ?thesis
      by (auto split: if_splits)
  next
    case ok: True
    then have dig: "containsOnly a num" "containsOnly b num" "containsOnly ?p num"
      by (simp_all add: segment_ok_def)
    show ?thesis
    proof (cases "segment_parses a \<and> segment_parses b \<and> segment_parses ?p")
      case False
      have "Validate esc ver =
        (case Validate_parse [a, b, ?p] ?v [] of
          Inl f \<Rightarrow> Inl f
        | Inr (Return e ms) \<Rightarrow> Inr (Some e, ms)
        | Inr (Next (v', messages2)) \<Rightarrow>
            (case Validate_prerelease esc v' messages2 of
               Return e ms \<Rightarrow> Inr (Some e, ms)
             | Next messages3 \<Rightarrow>
               (case Validate_metadata esc v' messages3 of
                  Return e ms \<Rightarrow> Inr (Some e, ms)
                | Next messages4 \<Rightarrow> Inr (None, messages4))))"
        using Validate_checked [OF abc] ok by blast
      with False ok assms(2) show ?thesis
        unfolding Validate_parse_3 [OF dig]
        by (auto simp add: segment_parses_def not_less split: if_splits)
    next
      case parses: True
      have f: "found_lines a b ?p \<noteq> []" by (simp add: found_lines_def)
      have v: "Validate esc ver =
        (case Validate_prerelease esc ?v (found_lines a b ?p) of
          Return e ms \<Rightarrow> Inr (Some e, ms)
        | Next messages3 \<Rightarrow>
            (case Validate_metadata esc ?v messages3 of
               Return e ms \<Rightarrow> Inr (Some e, ms)
             | Next messages4 \<Rightarrow> Inr (None, messages4)))"
        using Validate_parsed [OF abc] parses by blast
      show ?thesis
      proof (cases "Validate_prerelease esc ?v (found_lines a b ?p)")
        case (Return e1 m1)
        from Validate_prerelease_Return [OF Return] Validate_pre_ids_Return
        have "m1 \<noteq> []" by fastforce
        with v Return assms(2) show ?thesis by simp
      next
        case (Next m3)
        then have m3: "m3 \<noteq> []" using f by (auto simp add: Validate_prerelease_Next_iff)
        show ?thesis
        proof (cases "Validate_metadata esc ?v m3")
          case (Return e2 m2)
          from Validate_metadata_Return [OF Return] Validate_meta_ids_Return
          have "m2 \<noteq> []" by fastforce
          with v Next Return assms(2) show ?thesis by simp
        next
          case n4: (Next m4)
          then have "m4 \<noteq> []" using m3 by (auto simp add: Validate_metadata_Next_iff)
          with v Next n4 assms(2) show ?thesis by simp
        qed
      qed
    qed
  qed
qed


text \<open>Cutting a string that was put together.\<close>

lemma before_append: "c \<notin> set a \<Longrightarrow> before c (a @ c # r) = a"
  unfolding before_def by (induction a) auto

lemma after_append: "c \<notin> set a \<Longrightarrow> after c (a @ c # r) = r"
  unfolding after_def by (induction a) auto

lemma set_after: "set (after c s) \<subseteq> set s"
  unfolding after_def by (induction s) auto

lemma before_after: "c \<in> set s \<Longrightarrow> s = before c s @ c # after c s"
  unfolding before_def after_def by (induction s) auto

lemma notin_before: "c \<notin> set (before c s)"
  unfolding before_def by (induction s) auto

lemma SplitN_3_join:
  assumes "c \<notin> set a" and "c \<notin> set b"
  shows "SplitN (a @ c # b @ c # r) c 3 = [a, b, r]"
proof -
  have "after c (a @ c # b @ c # r) = b @ c # r" using assms(1) by (rule after_append)
  moreover have "before c (a @ c # b @ c # r) = a" using assms(1) by (rule before_append)
  ultimately show ?thesis
    using assms(2) by (simp add: SplitN_3 before_append after_append)
qed

lemma Count_pos: "(0 < Count s c) = (c \<in> set s)"
  by (induction s) (auto simp add: Count_def)

lemma Count_after: "c \<in> set s \<Longrightarrow> Count s c = Suc (Count (after c s) c)"
  unfolding after_def Count_def by (induction s) auto

lemma length_genSplit_loop:
  "Count s c \<le> k \<Longrightarrow> length (genSplit_loop k s c) = Suc (Count s c)"
proof (induction k arbitrary: s)
  case 0
  then show ?case by simp
next
  case (Suc k)
  show ?case
  proof (cases "c \<in> set s")
    case True
    with Suc.prems have "Count (after c s) c \<le> k" by (simp add: Count_after)
    with True Suc.IH show ?thesis
      by (simp add: genSplit_loop_Suc Count_after [of c s] del: genSplit_loop.simps(2))
  next
    case False
    then have "Count s c = 0" using Count_pos [of s c] by simp
    with False show ?thesis by (simp add: genSplit_loop_notin del: genSplit_loop.simps(2))
  qed
qed

lemma length_Split: "length (Split s c) = Suc (Count s c)"
proof -
  have "Count s c \<le> length s" by (simp add: Count_def)
  then show ?thesis
    by (simp add: Split_def SplitN_def Let_def length_genSplit_loop)
qed

text \<open>Digits are none of the separators.\<close>

lemma digits_no_separator:
  assumes "containsOnly p num"
  shows "CHR ''.'' \<notin> set p" and "CHR ''-'' \<notin> set p" and "CHR ''+'' \<notin> set p"
proof -
  have "CHR ''.'' \<notin> set num" "CHR ''-'' \<notin> set num" "CHR ''+'' \<notin> set num"
    by (simp_all add: num_def)
  then show "CHR ''.'' \<notin> set p" and "CHR ''-'' \<notin> set p" and "CHR ''+'' \<notin> set p"
    using assms unfolding containsOnly_iff by blast+
qed

lemma num_allowed: "set num \<subseteq> set allowed"
  unfolding allowed_def set_append by (rule Un_upper2)

lemma containsOnly_num_allowed: "containsOnly p num \<Longrightarrow> containsOnly p allowed"
  using num_allowed unfolding containsOnly_iff by blast

lemma trim_plain: "CHR ''-'' \<notin> set c \<Longrightarrow> CHR ''+'' \<notin> set c \<Longrightarrow>
    patch_part c = c \<and> pre_part c = [] \<and> meta_part c = []"
  by (simp add: patch_part_def pre_part_def meta_part_def before_notin)

lemma trim_minus:
  assumes "CHR ''-'' \<notin> set p" and "CHR ''+'' \<notin> set p" and "CHR ''+'' \<notin> set s"
  shows "patch_part (p @ CHR ''-'' # s) = p \<and> pre_part (p @ CHR ''-'' # s) = s
     \<and> meta_part (p @ CHR ''-'' # s) = []"
  using assms by (simp add: patch_part_def pre_part_def meta_part_def before_notin before_append after_append)

lemma trim_plus:
  assumes "CHR ''-'' \<notin> set p" and "CHR ''+'' \<notin> set p"
  shows "patch_part (p @ CHR ''+'' # s) = p \<and> pre_part (p @ CHR ''+'' # s) = []
     \<and> meta_part (p @ CHR ''+'' # s) = s"
  using assms by (simp add: patch_part_def pre_part_def meta_part_def before_notin before_append after_append)

lemma trim_minus_plus:
  assumes "CHR ''-'' \<notin> set p" and "CHR ''+'' \<notin> set p" and "CHR ''+'' \<notin> set s"
  shows "patch_part (p @ CHR ''-'' # s @ CHR ''+'' # t) = p
     \<and> pre_part (p @ CHR ''-'' # s @ CHR ''+'' # t) = s
     \<and> meta_part (p @ CHR ''-'' # s @ CHR ''+'' # t) = t"
proof -
  have b: "before (CHR ''+'') (p @ CHR ''-'' # s @ CHR ''+'' # t) = p @ CHR ''-'' # s"
    using before_append [of "CHR ''+''" "p @ CHR ''-'' # s" t] assms by simp
  have a: "after (CHR ''+'') (p @ CHR ''-'' # s @ CHR ''+'' # t) = t"
    using after_append [of "CHR ''+''" "p @ CHR ''-'' # s" t] assms by simp
  show ?thesis
    using assms by (simp add: patch_part_def pre_part_def meta_part_def a b before_append after_append)
qed

text \<open>The outcomes of an input of three pieces.\<close>

lemma Validate_3_outcome:
  assumes "SplitN ver (CHR ''.'') 3 = [a, b, c]" and "Validate esc ver = Inr (e, ms)"
  shows "e = None \<or> e = Some ErrInvalidCharacters \<or> e = Some ErrSegmentStartsZero
     \<or> (\<exists>s k. e = Some (NumError ''ParseUint'' s k))"
proof (cases "segment_ok a \<and> segment_ok b \<and> segment_ok (patch_part c)")
  case False
  from Validate_check_fails [OF assms(1) False, of esc] assms(2) show ?thesis
    by (auto split: if_splits)
next
  case ok: True
  let ?p = "patch_part c"
  let ?v = "version_zero\<lparr>pre := pre_part c, metadata := meta_part c\<rparr>"
  have dig: "containsOnly a num" "containsOnly b num" "containsOnly ?p num"
    using ok by (simp_all add: segment_ok_def)
  show ?thesis
  proof (cases "segment_parses a \<and> segment_parses b \<and> segment_parses ?p")
    case False
    have "Validate esc ver =
      (case Validate_parse [a, b, ?p] ?v [] of
        Inl f \<Rightarrow> Inl f
      | Inr (Return e ms) \<Rightarrow> Inr (Some e, ms)
      | Inr (Next (v', messages2)) \<Rightarrow>
          (case Validate_prerelease esc v' messages2 of
             Return e ms \<Rightarrow> Inr (Some e, ms)
           | Next messages3 \<Rightarrow>
             (case Validate_metadata esc v' messages3 of
                Return e ms \<Rightarrow> Inr (Some e, ms)
              | Next messages4 \<Rightarrow> Inr (None, messages4))))"
      using Validate_checked [OF assms(1)] ok by blast
    with False ok assms(2) show ?thesis
      unfolding Validate_parse_3 [OF dig]
      by (auto simp add: segment_parses_def not_less split: if_splits)
  next
    case parses: True
    have v: "Validate esc ver =
      (case Validate_prerelease esc ?v (found_lines a b ?p) of
        Return e ms \<Rightarrow> Inr (Some e, ms)
      | Next messages3 \<Rightarrow>
          (case Validate_metadata esc ?v messages3 of
             Return e ms \<Rightarrow> Inr (Some e, ms)
           | Next messages4 \<Rightarrow> Inr (None, messages4)))"
      using Validate_parsed [OF assms(1)] parses by blast
    show ?thesis
    proof (cases "Validate_prerelease esc ?v (found_lines a b ?p)")
      case (Return e1 m1)
      from Validate_prerelease_Return [OF Return] Validate_pre_ids_Return
      have "e1 = ErrSegmentStartsZero \<or> e1 = ErrInvalidCharacters" by blast
      with v Return assms(2) show ?thesis by auto
    next
      case (Next m3)
      show ?thesis
      proof (cases "Validate_metadata esc ?v m3")
        case (Return e2 m2)
        from Validate_metadata_Return [OF Return] Validate_meta_ids_Return
        have "e2 = ErrInvalidCharacters" by blast
        with v Next Return assms(2) show ?thesis by simp
      next
        case n4: (Next m4)
        with v Next assms(2) show ?thesis by simp
      qed
    qed
  qed
qed

lemma length_SplitN_3: "s \<noteq> [] \<Longrightarrow> length (SplitN s c 3) \<in> {1, 2, 3}"
  by (simp add: SplitN_3)

lemma Validate_number_parts_only:
  assumes "Validate esc ver = Inr (Some ErrInvalidNumberParts, ms)"
  shows "length (SplitN ver (CHR ''.'') 3) = 1 \<or> length (SplitN ver (CHR ''.'') 3) = 2"
proof -
  have ne: "ver \<noteq> []" using assms by (auto simp add: Validate_def)
  have "length (SplitN ver (CHR ''.'') 3) \<noteq> 3"
  proof
    assume "length (SplitN ver (CHR ''.'') 3) = 3"
    then obtain a b c where "SplitN ver (CHR ''.'') 3 = [a, b, c]"
      using length_3 by blast
    from Validate_3_outcome [OF this assms] show False by simp
  qed
  with length_SplitN_3 [OF ne, of "CHR ''.''"] show ?thesis by auto
qed

lemma many_dots:
  assumes "3 \<le> Count ver c"
  shows "SplitN ver c 3 = [before c ver, before c (after c ver), after c (after c ver)]
     \<and> c \<in> set (after c (after c ver))"
proof -
  have 1: "c \<in> set ver" using assms Count_pos [of ver c] by simp
  then have "2 \<le> Count (after c ver) c" using assms by (simp add: Count_after [of c ver])
  then have 2: "c \<in> set (after c ver)" and "1 \<le> Count (after c (after c ver)) c"
    using Count_pos [of "after c ver" c] Count_after [of c "after c ver"] by auto
  then have 3: "c \<in> set (after c (after c ver))"
    using Count_pos [of "after c (after c ver)" c] by simp
  have "ver \<noteq> []" using 1 by auto
  with 1 2 3 show ?thesis by (simp add: SplitN_3)
qed

lemmas segment_eval =
  segment_parses_def segment_ok_def containsOnly_iff num_def allowed_def leading_zero_def
  digits_val_def pre_id_ok_def meta_id_ok_def

section \<open>Properties of \<open>Validate\<close>\<close>

text \<open>
  C7. A non-empty input whose split at \<open>.\<close> into at most three pieces does not give
  three pieces is rejected with \<open>ErrInvalidNumberParts\<close> and exactly one message, which
  reports the number of pieces found; that number is 2 when the input holds a \<open>.\<close> and
  1 otherwise.
\<close>

theorem Validate_wrong_number_of_parts:
  assumes "ver \<noteq> []" and "length (SplitN ver (CHR ''.'') 3) \<noteq> 3"
  shows "Validate esc ver =
           Inr (Some ErrInvalidNumberParts,
                [''Found '' @ fmt_d (length (SplitN ver (CHR ''.'') 3)) @ '' number of parts''])
         \<and> Validate esc ver =
           Inr (Some ErrInvalidNumberParts,
                [if CHR ''.'' \<in> set ver then ''Found 2 number of parts''
                 else ''Found 1 number of parts''])"
proof -
  have first: "Validate esc ver =
      Inr (Some ErrInvalidNumberParts,
           [''Found '' @ fmt_d (length (SplitN ver (CHR ''.'') 3)) @ '' number of parts''])"
    using assms by (simp add: Validate_def Let_def)
  have len: "length (SplitN ver (CHR ''.'') 3) = (if CHR ''.'' \<in> set ver then 2 else 1)"
    using assms by (simp add: SplitN_3 split: if_splits)
  have "fmt_d 2 = ''2''" "fmt_d 1 = ''1''"
    by (simp_all add: fmt_d.simps char_of_digits)
  with first len show ?thesis by simp
qed

theorem Validate_wrong_number_of_parts_witness:
  "''1.2'' \<noteq> [] \<and> length (SplitN ''1.2'' (CHR ''.'') 3) \<noteq> 3
   \<and> Validate id ''1.2'' = Inr (Some ErrInvalidNumberParts, [''Found 2 number of parts''])"
proof -
  have h1: "''1.2'' \<noteq> []" by simp
  have h2: "length (SplitN ''1.2'' (CHR ''.'') 3) \<noteq> 3" by code_simp
  from Validate_wrong_number_of_parts [OF h1 h2, THEN conjunct2, of id] h1 h2 show ?thesis by simp
qed

text \<open>
  C8. \<open>Validate\<close> returns a result for every input and never panics. \<open>numToName\<close>
  panics exactly on an index above 2, and the segment loop, which starts at index 0 and
  visits at most three pieces, never reaches such an index.
\<close>

theorem Validate_never_panics:
  "(\<exists>e ms. Validate esc ver = Inr (e, ms))
   \<and> ((\<exists>f. numToName i = Inl f) = (2 < i))
   \<and> (length ps \<le> 3 \<longrightarrow> (\<exists>r. Validate_segments esc 0 ps ms0 = Inr r))"
proof -
  have "(\<exists>f. numToName i = Inl f) = (2 < i)"
    by (auto simp add: numToName_def)
  moreover have "length ps \<le> 3 \<longrightarrow> (\<exists>r. Validate_segments esc 0 ps ms0 = Inr r)"
    using Validate_segments_total [of 0 ps] by simp
  ultimately show ?thesis using Validate_total by blast
qed

theorem Validate_never_panics_witness:
  "(\<exists>e ms. Validate id ''v1.x.-+.'' = Inr (e, ms))
   \<and> ((\<exists>f. numToName 2 = Inl f) = (2 < (2::nat)))
   \<and> (length [''1'', ''2'', ''3''] \<le> 3 \<and> (\<exists>r. Validate_segments id 0 [''1'', ''2'', ''3''] [] = Inr r))"
  using Validate_never_panics [of id "''v1.x.-+.''" 2 "[''1'', ''2'', ''3'']" "[]"] by simp

text \<open>
  C1. When \<open>Validate\<close> classifies an input as valid, its messages start with the major
  line, the minor line and the patch line, in this order, and the messages on the
  pre-release and the build metadata follow them. Each of the three lines prints the
  integer that \<open>ParseUint\<close> returned for its segment; that integer is the number the
  segment denotes, and its print is the segment itself.
\<close>

theorem Validate_valid_lines:
  assumes "Validate esc ver = Inr (None, msgs)"
  shows "\<exists>a b c M m p.
     SplitN ver (CHR ''.'') 3 = [a, b, c]
     \<and> ParseUint a = (M, None) \<and> ParseUint b = (m, None) \<and> ParseUint (patch_part c) = (p, None)
     \<and> unat M = digits_val a \<and> unat m = digits_val b \<and> unat p = digits_val (patch_part c)
     \<and> msgs = [''Found major version of '' @ fmt_d (unat M),
               ''Found minor version of '' @ fmt_d (unat m),
               ''Found patch version of '' @ fmt_d (unat p)]
              @ pre_lines esc (pre_part c) @ meta_lines esc (meta_part c)
     \<and> fmt_d (unat M) = a \<and> fmt_d (unat m) = b \<and> fmt_d (unat p) = patch_part c"
proof -
  from Validate_valid_elim [OF assms] obtain a b c where
    abc: "SplitN ver (CHR ''.'') 3 = [a, b, c]"
    and pa: "segment_parses a" and pb: "segment_parses b" and pp: "segment_parses (patch_part c)"
    and msgs: "msgs = found_lines a b (patch_part c) @ pre_lines esc (pre_part c)
        @ meta_lines esc (meta_part c)"
    by blast
  have u: "unat (of_nat (digits_val a) :: 64 word) = digits_val a"
    "unat (of_nat (digits_val b) :: 64 word) = digits_val b"
    "unat (of_nat (digits_val (patch_part c)) :: 64 word) = digits_val (patch_part c)"
    using pa pb pp by (simp_all add: segment_parses_def unat_digits_val)
  show ?thesis
    using abc msgs u segment_parses_ParseUint [OF pa] segment_parses_ParseUint [OF pb]
      segment_parses_ParseUint [OF pp] segment_parses_fmt [OF pa] segment_parses_fmt [OF pb]
      segment_parses_fmt [OF pp]
    by (simp add: found_lines_def)
qed

lemma example_valid:
  "Validate esc ''1.20.3-rc.1+build.05'' =
     Inr (None, found_lines ''1'' ''20'' ''3'' @ pre_lines esc ''rc.1'' @ meta_lines esc ''build.05'')"
proof -
  have s: "SplitN ''1.20.3-rc.1+build.05'' (CHR ''.'') 3 = [''1'', ''20'', ''3-rc.1+build.05'']"
    by code_simp
  have p: "patch_part ''3-rc.1+build.05'' = ''3''" "pre_part ''3-rc.1+build.05'' = ''rc.1''"
    "meta_part ''3-rc.1+build.05'' = ''build.05''"
    by code_simp+
  have ok: "segment_parses ''1''" "segment_parses ''20''" "segment_parses ''3''"
    by (simp_all add: segment_eval)
  have ids: "list_all pre_id_ok (Split ''rc.1'' (CHR ''.''))"
    "list_all meta_id_ok (Split ''build.05'' (CHR ''.''))"
    by code_simp+
  show ?thesis
    using Validate_valid_intro [OF s, of esc] p ok ids by simp
qed

theorem Validate_valid_lines_witness:
  "Validate id ''1.20.3-rc.1+build.05'' =
     Inr (None, found_lines ''1'' ''20'' ''3'' @ pre_lines id ''rc.1'' @ meta_lines id ''build.05'')
   \<and> (\<exists>a b c M m p.
     SplitN ''1.20.3-rc.1+build.05'' (CHR ''.'') 3 = [a, b, c]
     \<and> ParseUint a = (M, None) \<and> ParseUint b = (m, None) \<and> ParseUint (patch_part c) = (p, None)
     \<and> unat M = digits_val a \<and> unat m = digits_val b \<and> unat p = digits_val (patch_part c)
     \<and> found_lines ''1'' ''20'' ''3'' @ pre_lines id ''rc.1'' @ meta_lines id ''build.05''
        = [''Found major version of '' @ fmt_d (unat M),
           ''Found minor version of '' @ fmt_d (unat m),
           ''Found patch version of '' @ fmt_d (unat p)]
          @ pre_lines id (pre_part c) @ meta_lines id (meta_part c)
     \<and> fmt_d (unat M) = a \<and> fmt_d (unat m) = b \<and> fmt_d (unat p) = patch_part c)"
proof -
  note h = example_valid [of id]
  from Validate_valid_lines [OF h] h show ?thesis by (rule conjI [rotated])
qed

text \<open>
  C6. The empty input is rejected with \<open>ErrEmptyString\<close> and no message at all. It is
  the only result without a message: a result with any other outcome, the valid one
  included, carries at least one message, and a result without messages comes from the
  empty input.
\<close>

theorem Validate_empty_string:
  "Validate esc [] = Inr (Some ErrEmptyString, [])
   \<and> (Validate esc ver = Inr (e, ms) \<and> e \<noteq> Some ErrEmptyString \<longrightarrow> ms \<noteq> [])
   \<and> (Validate esc ver = Inr (e, ms) \<and> ms = [] \<longrightarrow> ver = [] \<and> e = Some ErrEmptyString)"
proof -
  have empty: "Validate esc [] = Inr (Some ErrEmptyString, [])"
    by (simp add: Validate_def)
  have "ms \<noteq> []" if "Validate esc ver = Inr (e, ms)" and "e \<noteq> Some ErrEmptyString"
  proof -
    from that empty have "ver \<noteq> []" by auto
    then show ?thesis using Validate_messages that(1) by blast
  qed
  moreover have "ver = [] \<and> e = Some ErrEmptyString" if "Validate esc ver = Inr (e, ms)" and "ms = []"
  proof -
    from that have "ver = []" using Validate_messages by blast
    with that(1) empty show ?thesis by simp
  qed
  ultimately show ?thesis using empty by blast
qed

theorem Validate_empty_string_witness:
  "Validate id [] = Inr (Some ErrEmptyString, [])
   \<and> Validate id ''1.2'' = Inr (Some ErrInvalidNumberParts, [''Found 2 number of parts''])
   \<and> Some ErrInvalidNumberParts \<noteq> Some ErrEmptyString
   \<and> [''Found 2 number of parts''] \<noteq> []
   \<and> ([] :: string) = [] \<and> Some ErrEmptyString = Some ErrEmptyString"
proof -
  have v: "Validate id ''1.2'' = Inr (Some ErrInvalidNumberParts, [''Found 2 number of parts''])"
    by code_simp
  have n: "Some ErrInvalidNumberParts \<noteq> Some ErrEmptyString" by simp
  have e: "Validate id [] = Inr (Some ErrEmptyString, [])"
    using Validate_empty_string [of id] by blast
  from Validate_empty_string [of id "''1.2''" "Some ErrInvalidNumberParts" "[''Found 2 number of parts'']"] v n
  have 1: "[''Found 2 number of parts''] \<noteq> []" by blast
  from Validate_empty_string [of id "[]" "Some ErrEmptyString" "[]"] e
  have 2: "([] :: string) = [] \<and> Some ErrEmptyString = Some ErrEmptyString" by blast
  from e v n 1 2 show ?thesis by blast
qed

text \<open>
  C3. On an input of three pieces the segments are checked in the order major, minor,
  patch, the patch being the third piece without its suffixes, and on each segment the
  check for digits comes before the check for a leading zero. The first segment that
  fails a check ends the validation: a character that is no digit gives
  \<open>ErrInvalidCharacters\<close>, and a segment of digits that is longer than one byte and starts
  with \<open>0\<close> gives \<open>ErrSegmentStartsZero\<close>, in both cases with one message that names the
  segment. Nothing is required of the segments after it: they are not looked at.
\<close>

theorem Validate_first_violation:
  assumes "SplitN ver (CHR ''.'') 3 = [a, b, c]"
    and "parts = [a, b, patch_part c]"
    and "names = [''major'', ''minor'', ''patch'']"
    and "i < 3"
    and "\<forall>j<i. segment_ok (parts ! j)"
  shows "(\<not> containsOnly (parts ! i) num \<longrightarrow>
            Validate esc ver =
              Inr (Some ErrInvalidCharacters,
                   [''Illegal non-numeric characters found in '' @ [CHR 0x22] @ names ! i
                      @ [CHR 0x22] @ '' part'']))
       \<and> (containsOnly (parts ! i) num \<and> 1 < length (parts ! i) \<and> parts ! i ! 0 = CHR ''0'' \<longrightarrow>
            Validate esc ver =
              Inr (Some ErrSegmentStartsZero,
                   [''Illegal leading 0 found in '' @ [CHR 0x22] @ names ! i
                      @ [CHR 0x22] @ '' part'']))"
proof -
  have i: "i = 0 \<or> i = 1 \<or> i = 2" using assms(4) by auto
  have bad: "\<not> (segment_ok a \<and> segment_ok b \<and> segment_ok (patch_part c))"
    if "\<not> segment_ok (parts ! i)"
    using that i assms(2) by auto
  note fails = Validate_check_fails [OF assms(1), of esc]
  have ok_a: "0 < i \<longrightarrow> containsOnly a num \<and> \<not> leading_zero a"
    using assms(5) [THEN spec, of 0] assms(2) by (simp add: segment_ok_def)
  have ok_b: "1 < i \<longrightarrow> containsOnly b num \<and> \<not> leading_zero b"
    using assms(5) [THEN spec, of 1] assms(2) by (simp add: segment_ok_def)
  have first: "Validate esc ver =
      Inr (Some ErrInvalidCharacters,
           [''Illegal non-numeric characters found in '' @ [CHR 0x22] @ names ! i
              @ [CHR 0x22] @ '' part''])"
    if n: "\<not> containsOnly (parts ! i) num"
  proof -
    from n have "\<not> segment_ok (parts ! i)" by (simp add: segment_ok_def)
    from fails [OF bad [OF this]] i n assms(2,3) ok_a ok_b show ?thesis
      by (auto simp add: Quote_names)
  qed
  have second: "Validate esc ver =
      Inr (Some ErrSegmentStartsZero,
           [''Illegal leading 0 found in '' @ [CHR 0x22] @ names ! i @ [CHR 0x22] @ '' part''])"
    if z: "containsOnly (parts ! i) num \<and> 1 < length (parts ! i) \<and> parts ! i ! 0 = CHR ''0''"
  proof -
    from z have lz: "leading_zero (parts ! i)" by (simp add: leading_zero_def)
    then have "\<not> segment_ok (parts ! i)" by (simp add: segment_ok_def)
    from fails [OF bad [OF this]] i z lz assms(2,3) ok_a ok_b show ?thesis
      by (auto simp add: Quote_names)
  qed
  from first second show ?thesis by blast
qed

theorem Validate_first_violation_witness:
  "(SplitN ''1.0a.03'' (CHR ''.'') 3 = [''1'', ''0a'', ''03'']
    \<and> [''1'', ''0a'', ''03''] = [''1'', ''0a'', patch_part ''03'']
    \<and> (1::nat) < 3 \<and> segment_ok ([''1'', ''0a'', ''03''] ! 0)
    \<and> \<not> containsOnly ([''1'', ''0a'', ''03''] ! 1) num
    \<and> Validate id ''1.0a.03'' =
        Inr (Some ErrInvalidCharacters,
             [''Illegal non-numeric characters found in '' @ [CHR 0x22] @ ''minor'' @ [CHR 0x22] @ '' part'']))
   \<and> (SplitN ''1.2.03-x'' (CHR ''.'') 3 = [''1'', ''2'', ''03-x'']
    \<and> [''1'', ''2'', ''03''] = [''1'', ''2'', patch_part ''03-x'']
    \<and> (2::nat) < 3 \<and> segment_ok ([''1'', ''2'', ''03''] ! 0) \<and> segment_ok ([''1'', ''2'', ''03''] ! 1)
    \<and> containsOnly ([''1'', ''2'', ''03''] ! 2) num \<and> 1 < length ([''1'', ''2'', ''03''] ! 2)
    \<and> [''1'', ''2'', ''03''] ! 2 ! 0 = CHR ''0''
    \<and> Validate id ''1.2.03-x'' =
        Inr (Some ErrSegmentStartsZero,
             [''Illegal leading 0 found in '' @ [CHR 0x22] @ ''patch'' @ [CHR 0x22] @ '' part'']))"
proof -
  have s1: "SplitN ''1.0a.03'' (CHR ''.'') 3 = [''1'', ''0a'', ''03'']" by code_simp
  have p1: "[''1'', ''0a'', ''03''] = [''1'', ''0a'', patch_part ''03'']" by code_simp
  have o1: "\<forall>j<1. segment_ok ([''1'', ''0a'', ''03''] ! j)" by (simp add: segment_eval)
  have n1: "\<not> containsOnly ([''1'', ''0a'', ''03''] ! 1) num" by (simp add: segment_eval)
  have s2: "SplitN ''1.2.03-x'' (CHR ''.'') 3 = [''1'', ''2'', ''03-x'']" by code_simp
  have p2: "[''1'', ''2'', ''03''] = [''1'', ''2'', patch_part ''03-x'']" by code_simp
  have o2: "\<forall>j<2. segment_ok ([''1'', ''2'', ''03''] ! j)"
    by (simp add: segment_eval less_Suc_eq numeral_2_eq_2)
  have z2: "containsOnly ([''1'', ''2'', ''03''] ! 2) num \<and> 1 < length ([''1'', ''2'', ''03''] ! 2)
      \<and> [''1'', ''2'', ''03''] ! 2 ! 0 = CHR ''0''"
    by (simp add: segment_eval)
  have r1: "Validate id ''1.0a.03'' =
      Inr (Some ErrInvalidCharacters,
           [''Illegal non-numeric characters found in '' @ [CHR 0x22] @ ''minor'' @ [CHR 0x22] @ '' part''])"
    using Validate_first_violation [OF s1 p1 refl _ o1, of id, THEN conjunct1] n1 by simp
  have r2: "Validate id ''1.2.03-x'' =
      Inr (Some ErrSegmentStartsZero,
           [''Illegal leading 0 found in '' @ [CHR 0x22] @ ''patch'' @ [CHR 0x22] @ '' part''])"
    using Validate_first_violation [OF s2 p2 refl _ o2, of id, THEN conjunct2] z2 by simp
  have o1': "segment_ok ([''1'', ''0a'', ''03''] ! 0)" using o1 by simp
  have o2': "segment_ok ([''1'', ''2'', ''03''] ! 0) \<and> segment_ok ([''1'', ''2'', ''03''] ! 1)"
    using o2 by (simp add: segment_eval)
  from s1 p1 o1' n1 r1 s2 p2 o2' z2 r2 show ?thesis by simp
qed

text \<open>
  C4. The identifiers of a pre-release (its pieces between the dots) are checked in
  order, and the first one that fails ends the loop. An identifier of digits only that is
  longer than one byte and starts with \<open>0\<close> gives \<open>ErrSegmentStartsZero\<close>; an
  identifier with a byte outside \<open>[0-9A-Za-z-]\<close> gives \<open>ErrInvalidCharacters\<close>. An
  identifier that is not numeric and holds allowed bytes only is passed over without any
  look at a leading zero, and a numeric identifier followed by a letter or a hyphen is
  such an identifier. The loop runs when the three segments pass and parse and the
  pre-release is not empty, and then its result is the result of \<open>Validate\<close>: the
  outcome above, with the message behind the three lines of the segments.
\<close>

theorem Validate_prerelease_identifiers:
  assumes "list_all pre_id_ok xs"
  shows "(containsOnly p num \<and> 1 < length p \<and> p ! 0 = CHR ''0'' \<longrightarrow>
            Validate_pre_ids esc (xs @ p # ys) ms =
              Return ErrSegmentStartsZero
                (ms @ [''Illegal leading 0 found in pre-release numeric part '' @ Quote esc p]))
       \<and> (\<not> containsOnly p allowed \<longrightarrow>
            Validate_pre_ids esc (xs @ p # ys) ms =
              Return ErrInvalidCharacters
                (ms @ [''Illegal characters found in pre-release non-numeric part '' @ Quote esc p
                         @ ''. Must be [0-9A-Za-z-]'']))
       \<and> (\<not> containsOnly p num \<and> containsOnly p allowed \<longrightarrow>
            Validate_pre_ids esc (xs @ p # ys) ms = Validate_pre_ids esc ys ms)
       \<and> (containsOnly q num \<and> l \<in> set allowed \<and> l \<notin> set num \<longrightarrow>
            \<not> containsOnly (q @ [l]) num \<and> containsOnly (q @ [l]) allowed)
       \<and> (SplitN ver (CHR ''.'') 3 = [a, b, c]
            \<and> segment_parses a \<and> segment_parses b \<and> segment_parses (patch_part c)
            \<and> pre_part c \<noteq> [] \<and> Split (pre_part c) (CHR ''.'') = xs @ p # ys \<longrightarrow>
            (containsOnly p num \<and> 1 < length p \<and> p ! 0 = CHR ''0'' \<longrightarrow>
               Validate esc ver =
                 Inr (Some ErrSegmentStartsZero,
                      found_lines a b (patch_part c)
                      @ [''Illegal leading 0 found in pre-release numeric part '' @ Quote esc p]))
            \<and> (\<not> containsOnly p allowed \<longrightarrow>
               Validate esc ver =
                 Inr (Some ErrInvalidCharacters,
                      found_lines a b (patch_part c)
                      @ [''Illegal characters found in pre-release non-numeric part '' @ Quote esc p
                           @ ''. Must be [0-9A-Za-z-]''])))"
proof -
  have loop: "Validate_pre_ids esc (xs @ p # ys) m = Validate_pre_ids esc (p # ys) m" for m
    using assms by (rule Validate_pre_ids_append)
  have zero: "Validate_pre_ids esc (xs @ p # ys) m =
      Return ErrSegmentStartsZero
        (m @ [''Illegal leading 0 found in pre-release numeric part '' @ Quote esc p])"
    if "containsOnly p num \<and> 1 < length p \<and> p ! 0 = CHR ''0''" for m
    unfolding loop using that by simp
  have chars: "Validate_pre_ids esc (xs @ p # ys) m =
      Return ErrInvalidCharacters
        (m @ [''Illegal characters found in pre-release non-numeric part '' @ Quote esc p
                @ ''. Must be [0-9A-Za-z-]''])"
    if "\<not> containsOnly p allowed" for m
  proof -
    from that have "\<not> containsOnly p num" using containsOnly_num_allowed by blast
    with that show ?thesis unfolding loop by simp
  qed
  have pass: "Validate_pre_ids esc (xs @ p # ys) ms = Validate_pre_ids esc ys ms"
    if "\<not> containsOnly p num \<and> containsOnly p allowed"
    using that loop by simp
  have letter: "\<not> containsOnly (q @ [l]) num \<and> containsOnly (q @ [l]) allowed"
    if "containsOnly q num \<and> l \<in> set allowed \<and> l \<notin> set num"
    using that containsOnly_num_allowed [of q] by (simp add: containsOnly_iff)
  have whole: "Validate esc ver = Inr (Some e, m)"
    if r: "SplitN ver (CHR ''.'') 3 = [a, b, c]
            \<and> segment_parses a \<and> segment_parses b \<and> segment_parses (patch_part c)
            \<and> pre_part c \<noteq> [] \<and> Split (pre_part c) (CHR ''.'') = xs @ p # ys"
      and l: "Validate_pre_ids esc (xs @ p # ys) (found_lines a b (patch_part c)) = Return e m"
    for e m
  proof -
    let ?v = "version_zero\<lparr>pre := pre_part c, metadata := meta_part c\<rparr>"
    have "Validate_prerelease esc ?v (found_lines a b (patch_part c)) = Return e m"
      using r l by (simp add: Validate_prerelease_def)
    then show ?thesis
      using Validate_parsed [of ver a b c esc] r by simp
  qed
  show ?thesis
    using zero chars pass letter whole [OF _ zero] whole [OF _ chars] by blast
qed

theorem Validate_prerelease_identifiers_witness:
  "(list_all pre_id_ok [''alpha'']
    \<and> containsOnly ''01'' num \<and> 1 < length ''01'' \<and> ''01'' ! 0 = CHR ''0''
    \<and> Validate_pre_ids id ([''alpha''] @ ''01'' # []) [] =
        Return ErrSegmentStartsZero
          [''Illegal leading 0 found in pre-release numeric part '' @ [CHR 0x22] @ ''01'' @ [CHR 0x22]]
    \<and> SplitN ''1.2.3-alpha.01'' (CHR ''.'') 3 = [''1'', ''2'', ''3-alpha.01'']
    \<and> segment_parses ''1'' \<and> segment_parses ''2'' \<and> segment_parses (patch_part ''3-alpha.01'')
    \<and> pre_part ''3-alpha.01'' \<noteq> []
    \<and> Split (pre_part ''3-alpha.01'') (CHR ''.'') = [''alpha''] @ ''01'' # []
    \<and> Validate id ''1.2.3-alpha.01'' =
        Inr (Some ErrSegmentStartsZero,
             found_lines ''1'' ''2'' ''3''
             @ [''Illegal leading 0 found in pre-release numeric part '' @ [CHR 0x22] @ ''01'' @ [CHR 0x22]]))
   \<and> (list_all pre_id_ok [''a'']
    \<and> \<not> containsOnly ''b$'' allowed
    \<and> SplitN ''1.2.3-a.b$.01'' (CHR ''.'') 3 = [''1'', ''2'', ''3-a.b$.01'']
    \<and> Split (pre_part ''3-a.b$.01'') (CHR ''.'') = [''a''] @ ''b$'' # [''01'']
    \<and> Validate id ''1.2.3-a.b$.01'' =
        Inr (Some ErrInvalidCharacters,
             found_lines ''1'' ''2'' ''3''
             @ [''Illegal characters found in pre-release non-numeric part '' @ [CHR 0x22] @ ''b$''
                  @ [CHR 0x22] @ ''. Must be [0-9A-Za-z-]'']))
   \<and> (\<not> containsOnly ''01a'' num \<and> containsOnly ''01a'' allowed
    \<and> Validate_pre_ids id ([''alpha''] @ ''01a'' # []) [] = Validate_pre_ids id [] [])
   \<and> (containsOnly ''01'' num \<and> CHR ''a'' \<in> set allowed \<and> CHR ''a'' \<notin> set num
    \<and> \<not> containsOnly (''01'' @ [CHR ''a'']) num \<and> containsOnly (''01'' @ [CHR ''a'']) allowed)"
proof -
  have x1: "list_all pre_id_ok [''alpha'']" by code_simp
  have x2: "list_all pre_id_ok [''a'']" by code_simp
  have ok: "segment_parses ''1''" "segment_parses ''2''" "segment_parses ''3''"
    by (simp_all add: segment_eval)
  have s1: "SplitN ''1.2.3-alpha.01'' (CHR ''.'') 3 = [''1'', ''2'', ''3-alpha.01'']" by code_simp
  have t1: "patch_part ''3-alpha.01'' = ''3''" "pre_part ''3-alpha.01'' = ''alpha.01''" by code_simp+
  have ok1: "segment_parses (patch_part ''3-alpha.01'')" using ok t1 by simp
  have n1: "pre_part ''3-alpha.01'' \<noteq> []" using t1 by simp
  have i1: "Split (pre_part ''3-alpha.01'') (CHR ''.'') = [''alpha''] @ ''01'' # []" by code_simp
  have z1: "containsOnly ''01'' num \<and> 1 < length ''01'' \<and> ''01'' ! 0 = CHR ''0''" by code_simp
  have q1: "Quote id ''01'' = [CHR 0x22] @ ''01'' @ [CHR 0x22]" by (simp add: Quote_def plain_def)
  note A = Validate_prerelease_identifiers [OF x1, where esc = id and p = "''01''" and ys = "[]"
      and ms = "[]" and ver = "''1.2.3-alpha.01''" and a = "''1''" and b = "''2''"
      and c = "''3-alpha.01''" and q = "''01''" and l = "CHR ''a''"]
  have l1: "Validate_pre_ids id ([''alpha''] @ ''01'' # []) [] =
      Return ErrSegmentStartsZero
        [''Illegal leading 0 found in pre-release numeric part '' @ [CHR 0x22] @ ''01'' @ [CHR 0x22]]"
    using A [THEN conjunct1] z1 q1 by simp
  have r1: "Validate id ''1.2.3-alpha.01'' =
      Inr (Some ErrSegmentStartsZero,
           found_lines ''1'' ''2'' ''3''
           @ [''Illegal leading 0 found in pre-release numeric part '' @ [CHR 0x22] @ ''01'' @ [CHR 0x22]])"
    using A [THEN conjunct2, THEN conjunct2, THEN conjunct2, THEN conjunct2]
      s1 ok(1,2) ok1 n1 i1 z1 t1 q1 by simp
  have z4: "containsOnly ''01'' num \<and> CHR ''a'' \<in> set allowed \<and> CHR ''a'' \<notin> set num" by code_simp
  have r4: "\<not> containsOnly (''01'' @ [CHR ''a'']) num \<and> containsOnly (''01'' @ [CHR ''a'']) allowed"
    using A [THEN conjunct2, THEN conjunct2, THEN conjunct2, THEN conjunct1] z4 by blast
  have s2: "SplitN ''1.2.3-a.b$.01'' (CHR ''.'') 3 = [''1'', ''2'', ''3-a.b$.01'']" by code_simp
  have t2: "patch_part ''3-a.b$.01'' = ''3''" "pre_part ''3-a.b$.01'' = ''a.b$.01''" by code_simp+
  have ok2: "segment_parses (patch_part ''3-a.b$.01'')" using ok t2 by simp
  have n2: "pre_part ''3-a.b$.01'' \<noteq> []" using t2 by simp
  have i2: "Split (pre_part ''3-a.b$.01'') (CHR ''.'') = [''a''] @ ''b$'' # [''01'']" by code_simp
  have z2: "\<not> containsOnly ''b$'' allowed" by code_simp
  have q2: "Quote id ''b$'' = [CHR 0x22] @ ''b$'' @ [CHR 0x22]" by (simp add: Quote_def plain_def)
  note B = Validate_prerelease_identifiers [OF x2, where esc = id and p = "''b$''"
      and ys = "[''01'']" and ver = "''1.2.3-a.b$.01''" and a = "''1''" and b = "''2''"
      and c = "''3-a.b$.01''"]
  have r2: "Validate id ''1.2.3-a.b$.01'' =
      Inr (Some ErrInvalidCharacters,
           found_lines ''1'' ''2'' ''3''
           @ [''Illegal characters found in pre-release non-numeric part '' @ [CHR 0x22] @ ''b$''
                @ [CHR 0x22] @ ''. Must be [0-9A-Za-z-]''])"
    using B [THEN conjunct2, THEN conjunct2, THEN conjunct2, THEN conjunct2]
      s2 ok(1,2) ok2 n2 i2 z2 t2 q2 by simp
  have z3: "\<not> containsOnly ''01a'' num \<and> containsOnly ''01a'' allowed" by code_simp
  note C = Validate_prerelease_identifiers [OF x1, where esc = id and p = "''01a''"
      and ys = "[]" and ms = "[]"]
  have r3: "Validate_pre_ids id ([''alpha''] @ ''01a'' # []) [] = Validate_pre_ids id [] []"
    using C [THEN conjunct2, THEN conjunct2, THEN conjunct1] z3 by blast
  show ?thesis
    using x1 z1 l1 s1 ok ok1 n1 i1 r1 x2 z2 s2 i2 r2 z3 r3 z4 r4 by blast
qed

text \<open>
  C5. The build metadata is cut off the third piece at its first \<open>+\<close>, before the
  pre-release is cut off at the first \<open>-\<close> of what is left; so a hyphen behind the
  \<open>+\<close> belongs to the metadata. The loop over the identifiers of the metadata passes
  every identifier of allowed bytes, whatever its digits: a numeric identifier is never
  rejected there. It stops at the first identifier with a byte outside
  \<open>[0-9A-Za-z-]\<close>, and \<open>Validate\<close> then returns \<open>ErrInvalidCharacters\<close> with the
  message on this identifier behind the lines of the segments and of the pre-release.
  So, when the three segments parse and the pre-release passes, a version with metadata
  is valid exactly when every identifier of the metadata holds allowed bytes only; the
  inputs \<open>1.2.3+build.01\<close> and \<open>1.2.3+test-01\<close> are valid.
\<close>

theorem Validate_build_metadata:
  "Validate_trim [a, b, c] version_zero =
     Inr ([a, b, patch_part c], version_zero\<lparr>pre := pre_part c, metadata := meta_part c\<rparr>)
   \<and> (CHR ''+'' \<in> set c \<longrightarrow>
        c = before (CHR ''+'') c @ ''+'' @ meta_part c \<and> CHR ''+'' \<notin> set (before (CHR ''+'') c))
   \<and> (CHR ''+'' \<notin> set c \<longrightarrow> before (CHR ''+'') c = c \<and> meta_part c = [])
   \<and> (CHR ''-'' \<in> set (before (CHR ''+'') c) \<longrightarrow>
        before (CHR ''+'') c = patch_part c @ ''-'' @ pre_part c \<and> CHR ''-'' \<notin> set (patch_part c))
   \<and> (CHR ''-'' \<notin> set (before (CHR ''+'') c) \<longrightarrow>
        patch_part c = before (CHR ''+'') c \<and> pre_part c = [])
   \<and> (Validate_meta_ids esc ids ms = Next ms) = (\<forall>p\<in>set ids. containsOnly p allowed)
   \<and> (containsOnly q num \<longrightarrow> Validate_meta_ids esc (q # ids) ms = Validate_meta_ids esc ids ms)
   \<and> (SplitN ver (CHR ''.'') 3 = [a, b, c]
        \<and> segment_parses a \<and> segment_parses b \<and> segment_parses (patch_part c)
        \<and> (pre_part c \<noteq> [] \<longrightarrow> list_all pre_id_ok (Split (pre_part c) (CHR ''.'')))
        \<and> (\<forall>p\<in>set (Split (meta_part c) (CHR ''.'')). containsOnly p allowed) \<longrightarrow>
        Validate esc ver =
          Inr (None, found_lines a b (patch_part c) @ pre_lines esc (pre_part c)
                     @ meta_lines esc (meta_part c)))
   \<and> ((\<forall>x\<in>set xs. containsOnly x allowed) \<and> \<not> containsOnly p allowed \<longrightarrow>
        Validate_meta_ids esc (xs @ p # ys) ms =
          Return ErrInvalidCharacters
            (ms @ [''Illegal characters found in metadata part '' @ Quote esc p
                     @ ''. Must be [0-9A-Za-z-]'']))
   \<and> (SplitN ver (CHR ''.'') 3 = [a, b, c]
        \<and> segment_parses a \<and> segment_parses b \<and> segment_parses (patch_part c)
        \<and> (pre_part c \<noteq> [] \<longrightarrow> list_all pre_id_ok (Split (pre_part c) (CHR ''.'')))
        \<and> meta_part c \<noteq> [] \<and> Split (meta_part c) (CHR ''.'') = xs @ p # ys
        \<and> (\<forall>x\<in>set xs. containsOnly x allowed) \<and> \<not> containsOnly p allowed \<longrightarrow>
        Validate esc ver =
          Inr (Some ErrInvalidCharacters,
               found_lines a b (patch_part c) @ pre_lines esc (pre_part c)
               @ [''Illegal characters found in metadata part '' @ Quote esc p
                    @ ''. Must be [0-9A-Za-z-]'']))
   \<and> (SplitN ver (CHR ''.'') 3 = [a, b, c]
        \<and> segment_parses a \<and> segment_parses b \<and> segment_parses (patch_part c)
        \<and> (pre_part c \<noteq> [] \<longrightarrow> list_all pre_id_ok (Split (pre_part c) (CHR ''.'')))
        \<and> meta_part c \<noteq> [] \<longrightarrow>
        (\<exists>msgs. Validate esc ver = Inr (None, msgs))
          = (\<forall>x\<in>set (Split (meta_part c) (CHR ''.'')). containsOnly x allowed))
   \<and> Validate esc ''1.2.3+build.01'' =
        Inr (None, [''Found major version of 1'', ''Found minor version of 2'',
                    ''Found patch version of 3'',
                    ''Found build metadate on version of '' @ [CHR 0x22] @ ''build.01'' @ [CHR 0x22],
                    ''NOTICE: Build metadata MUST be ignored when determining version precedence. Thus two versions that differ only in the build metadata, have the same precedence.''])
   \<and> Validate esc ''1.2.3+test-01'' =
        Inr (None, [''Found major version of 1'', ''Found minor version of 2'',
                    ''Found patch version of 3'',
                    ''Found build metadate on version of '' @ [CHR 0x22] @ ''test-01'' @ [CHR 0x22],
                    ''NOTICE: Build metadata MUST be ignored when determining version precedence. Thus two versions that differ only in the build metadata, have the same precedence.''])"
proof -
  have plus: "c = before (CHR ''+'') c @ ''+'' @ meta_part c \<and> CHR ''+'' \<notin> set (before (CHR ''+'') c)"
    if "CHR ''+'' \<in> set c"
    using that before_after [OF that] notin_before [of "CHR ''+''" c] by (simp add: meta_part_def)
  have noplus: "before (CHR ''+'') c = c \<and> meta_part c = []" if "CHR ''+'' \<notin> set c"
    using that by (simp add: before_notin meta_part_def)
  have minus: "before (CHR ''+'') c = patch_part c @ ''-'' @ pre_part c \<and> CHR ''-'' \<notin> set (patch_part c)"
    if "CHR ''-'' \<in> set (before (CHR ''+'') c)"
    using that before_after [OF that] notin_before [of "CHR ''-''" "before (CHR ''+'') c"]
    by (simp add: pre_part_def patch_part_def)
  have nominus: "patch_part c = before (CHR ''+'') c \<and> pre_part c = []"
    if "CHR ''-'' \<notin> set (before (CHR ''+'') c)"
    using that by (simp add: before_notin pre_part_def patch_part_def)
  have loop: "(Validate_meta_ids esc ids ms = Next ms) = (\<forall>p\<in>set ids. containsOnly p allowed)"
    by (simp add: Validate_meta_ids_Next_iff list_all_iff meta_id_ok_def)
  have numeric: "Validate_meta_ids esc (q # ids) ms = Validate_meta_ids esc ids ms"
    if "containsOnly q num"
    using containsOnly_num_allowed [OF that] by simp
  have general: "Validate esc ver =
      Inr (None, found_lines a b (patch_part c) @ pre_lines esc (pre_part c)
                 @ meta_lines esc (meta_part c))"
    if "SplitN ver (CHR ''.'') 3 = [a, b, c]
        \<and> segment_parses a \<and> segment_parses b \<and> segment_parses (patch_part c)
        \<and> (pre_part c \<noteq> [] \<longrightarrow> list_all pre_id_ok (Split (pre_part c) (CHR ''.'')))
        \<and> (\<forall>p\<in>set (Split (meta_part c) (CHR ''.'')). containsOnly p allowed)"
    using that by (intro Validate_valid_intro) (simp_all add: list_all_iff meta_id_ok_def)
  have reject_loop: "Validate_meta_ids esc (xs @ p # ys) m =
      Return ErrInvalidCharacters
        (m @ [''Illegal characters found in metadata part '' @ Quote esc p
                @ ''. Must be [0-9A-Za-z-]''])"
    if "(\<forall>x\<in>set xs. containsOnly x allowed) \<and> \<not> containsOnly p allowed" for m
  proof -
    from that have "list_all meta_id_ok xs" by (simp add: list_all_iff meta_id_ok_def)
    then have "Validate_meta_ids esc (xs @ p # ys) m = Validate_meta_ids esc (p # ys) m"
      by (rule Validate_meta_ids_append)
    with that show ?thesis by simp
  qed
  have reject: "Validate esc ver =
      Inr (Some ErrInvalidCharacters,
           found_lines a b (patch_part c) @ pre_lines esc (pre_part c)
           @ [''Illegal characters found in metadata part '' @ Quote esc p
                @ ''. Must be [0-9A-Za-z-]''])"
    if h: "SplitN ver (CHR ''.'') 3 = [a, b, c]
        \<and> segment_parses a \<and> segment_parses b \<and> segment_parses (patch_part c)
        \<and> (pre_part c \<noteq> [] \<longrightarrow> list_all pre_id_ok (Split (pre_part c) (CHR ''.'')))
        \<and> meta_part c \<noteq> [] \<and> Split (meta_part c) (CHR ''.'') = xs @ p # ys
        \<and> (\<forall>x\<in>set xs. containsOnly x allowed) \<and> \<not> containsOnly p allowed"
  proof -
    let ?v = "version_zero\<lparr>pre := pre_part c, metadata := meta_part c\<rparr>"
    let ?m = "found_lines a b (patch_part c) @ pre_lines esc (pre_part c)"
    have 1: "Validate_prerelease esc ?v (found_lines a b (patch_part c)) = Next ?m"
      using h by (simp add: Validate_prerelease_Next_iff)
    have 2: "Validate_metadata esc ?v ?m =
        Return ErrInvalidCharacters
          (?m @ [''Illegal characters found in metadata part '' @ Quote esc p
                   @ ''. Must be [0-9A-Za-z-]''])"
      using h reject_loop [of ?m] by (simp add: Validate_metadata_def)
    show ?thesis
      using Validate_parsed [of ver a b c esc] h by (simp add: 1 2)
  qed
  have exact: "(\<exists>msgs. Validate esc ver = Inr (None, msgs))
      = (\<forall>x\<in>set (Split (meta_part c) (CHR ''.'')). containsOnly x allowed)"
    if h: "SplitN ver (CHR ''.'') 3 = [a, b, c]
        \<and> segment_parses a \<and> segment_parses b \<and> segment_parses (patch_part c)
        \<and> (pre_part c \<noteq> [] \<longrightarrow> list_all pre_id_ok (Split (pre_part c) (CHR ''.'')))
        \<and> meta_part c \<noteq> []"
  proof
    assume "\<exists>msgs. Validate esc ver = Inr (None, msgs)"
    then obtain msgs where "Validate esc ver = Inr (None, msgs)" by blast
    from Validate_valid_elim [OF this] h
    have "list_all meta_id_ok (Split (meta_part c) (CHR ''.''))" by auto
    then show "\<forall>x\<in>set (Split (meta_part c) (CHR ''.'')). containsOnly x allowed"
      by (simp add: list_all_iff meta_id_ok_def)
  next
    assume "\<forall>x\<in>set (Split (meta_part c) (CHR ''.'')). containsOnly x allowed"
    with h general show "\<exists>msgs. Validate esc ver = Inr (None, msgs)" by blast
  qed
  have ok: "segment_parses ''1''" "segment_parses ''2''" "segment_parses ''3''"
    by (simp_all add: segment_eval)
  have f: "found_lines ''1'' ''2'' ''3'' =
      [''Found major version of 1'', ''Found minor version of 2'', ''Found patch version of 3'']"
    using ok by (simp add: found_lines_def segment_parses_fmt)
  have s1: "SplitN ''1.2.3+build.01'' (CHR ''.'') 3 = [''1'', ''2'', ''3+build.01'']" by code_simp
  have t1: "patch_part ''3+build.01'' = ''3''" "pre_part ''3+build.01'' = []"
    "meta_part ''3+build.01'' = ''build.01''" by code_simp+
  have i1: "list_all meta_id_ok (Split ''build.01'' (CHR ''.''))" by code_simp
  have q1: "list_all plain ''build.01''" by (simp add: plain_def)
  have e1: "Validate esc ''1.2.3+build.01'' =
      Inr (None, found_lines ''1'' ''2'' ''3'' @ pre_lines esc [] @ meta_lines esc ''build.01'')"
    using Validate_valid_intro [OF s1, of esc] ok t1 i1 by simp
  have s2: "SplitN ''1.2.3+test-01'' (CHR ''.'') 3 = [''1'', ''2'', ''3+test-01'']" by code_simp
  have t2: "patch_part ''3+test-01'' = ''3''" "pre_part ''3+test-01'' = []"
    "meta_part ''3+test-01'' = ''test-01''" by code_simp+
  have i2: "list_all meta_id_ok (Split ''test-01'' (CHR ''.''))" by code_simp
  have q2: "list_all plain ''test-01''" by (simp add: plain_def)
  have e2: "Validate esc ''1.2.3+test-01'' =
      Inr (None, found_lines ''1'' ''2'' ''3'' @ pre_lines esc [] @ meta_lines esc ''test-01'')"
    using Validate_valid_intro [OF s2, of esc] ok t2 i2 by simp
  have x1: "Validate esc ''1.2.3+build.01'' =
        Inr (None, [''Found major version of 1'', ''Found minor version of 2'',
                    ''Found patch version of 3'',
                    ''Found build metadate on version of '' @ [CHR 0x22] @ ''build.01'' @ [CHR 0x22],
                    ''NOTICE: Build metadata MUST be ignored when determining version precedence. Thus two versions that differ only in the build metadata, have the same precedence.''])"
    unfolding e1 f using q1 by (simp add: pre_lines_def meta_lines_def Quote_def)
  have x2: "Validate esc ''1.2.3+test-01'' =
        Inr (None, [''Found major version of 1'', ''Found minor version of 2'',
                    ''Found patch version of 3'',
                    ''Found build metadate on version of '' @ [CHR 0x22] @ ''test-01'' @ [CHR 0x22],
                    ''NOTICE: Build metadata MUST be ignored when determining version precedence. Thus two versions that differ only in the build metadata, have the same precedence.''])"
    unfolding e2 f using q2 by (simp add: pre_lines_def meta_lines_def Quote_def)
  show ?thesis
    apply (intro conjI impI)
    subgoal by (rule Validate_trim_3)
    subgoal using plus by blast
    subgoal using plus by blast
    subgoal using noplus by blast
    subgoal using noplus by blast
    subgoal using minus by blast
    subgoal using minus by blast
    subgoal using nominus by blast
    subgoal using nominus by blast
    subgoal by (rule loop)
    subgoal using numeric by blast
    subgoal using general by blast
    subgoal using reject_loop by blast
    subgoal using reject by blast
    subgoal using exact by blast
    subgoal by (rule x1)
    subgoal by (rule x2)
    done
qed

theorem Validate_build_metadata_witness:
  "(CHR ''+'' \<in> set ''3-rc+test-01''
    \<and> ''3-rc+test-01'' = before (CHR ''+'') ''3-rc+test-01'' @ ''+'' @ meta_part ''3-rc+test-01''
    \<and> meta_part ''3-rc+test-01'' = ''test-01'')
   \<and> (CHR ''-'' \<in> set (before (CHR ''+'') ''3-rc+test-01'')
    \<and> before (CHR ''+'') ''3-rc+test-01'' = patch_part ''3-rc+test-01'' @ ''-'' @ pre_part ''3-rc+test-01''
    \<and> pre_part ''3-rc+test-01'' = ''rc'')
   \<and> (CHR ''+'' \<notin> set ''3'' \<and> before (CHR ''+'') ''3'' = ''3'' \<and> meta_part ''3'' = [])
   \<and> (CHR ''-'' \<notin> set (before (CHR ''+'') ''3+test-01'')
    \<and> patch_part ''3+test-01'' = before (CHR ''+'') ''3+test-01'' \<and> pre_part ''3+test-01'' = [])
   \<and> (containsOnly ''01'' num
    \<and> Validate_meta_ids id (''01'' # [''test-01'']) [] = Validate_meta_ids id [''test-01''] [])
   \<and> (SplitN ''1.2.3-rc+test-01'' (CHR ''.'') 3 = [''1'', ''2'', ''3-rc+test-01'']
    \<and> segment_parses ''1'' \<and> segment_parses ''2'' \<and> segment_parses (patch_part ''3-rc+test-01'')
    \<and> Validate id ''1.2.3-rc+test-01'' =
        Inr (None, found_lines ''1'' ''2'' ''3'' @ pre_lines id ''rc'' @ meta_lines id ''test-01''))
   \<and> (containsOnly ''build'' allowed \<and> \<not> containsOnly ''a$b'' allowed
    \<and> Validate_meta_ids id ([''build''] @ ''a$b'' # [''01'']) [] =
        Return ErrInvalidCharacters
          [''Illegal characters found in metadata part '' @ [CHR 0x22] @ ''a$b'' @ [CHR 0x22]
             @ ''. Must be [0-9A-Za-z-]''])
   \<and> (SplitN ''1.2.3+build.a$b.01'' (CHR ''.'') 3 = [''1'', ''2'', ''3+build.a$b.01'']
    \<and> segment_parses (patch_part ''3+build.a$b.01'') \<and> pre_part ''3+build.a$b.01'' = []
    \<and> meta_part ''3+build.a$b.01'' \<noteq> []
    \<and> Split (meta_part ''3+build.a$b.01'') (CHR ''.'') = [''build''] @ ''a$b'' # [''01'']
    \<and> Validate id ''1.2.3+build.a$b.01'' =
        Inr (Some ErrInvalidCharacters,
             found_lines ''1'' ''2'' ''3''
             @ [''Illegal characters found in metadata part '' @ [CHR 0x22] @ ''a$b'' @ [CHR 0x22]
                  @ ''. Must be [0-9A-Za-z-]'']))
   \<and> (meta_part ''3-rc+test-01'' \<noteq> []
    \<and> Split (meta_part ''3-rc+test-01'') (CHR ''.'') = [''test-01'']
    \<and> containsOnly ''test-01'' allowed
    \<and> (\<exists>msgs. Validate id ''1.2.3-rc+test-01'' = Inr (None, msgs)))"
proof -
  have h1: "CHR ''+'' \<in> set ''3-rc+test-01''" by simp
  have m1: "meta_part ''3-rc+test-01'' = ''test-01''" by code_simp
  have h2: "CHR ''-'' \<in> set (before (CHR ''+'') ''3-rc+test-01'')" by code_simp
  have p1: "pre_part ''3-rc+test-01'' = ''rc''" "patch_part ''3-rc+test-01'' = ''3''" by code_simp+
  have h3: "CHR ''+'' \<notin> set ''3''" by simp
  have h4: "CHR ''-'' \<notin> set (before (CHR ''+'') ''3+test-01'')" by code_simp
  have h5: "containsOnly ''01'' num" by code_simp
  have s: "SplitN ''1.2.3-rc+test-01'' (CHR ''.'') 3 = [''1'', ''2'', ''3-rc+test-01'']" by code_simp
  have ok: "segment_parses ''1''" "segment_parses ''2''" "segment_parses ''3''"
    by (simp_all add: segment_eval)
  have okp: "segment_parses (patch_part ''3-rc+test-01'')" using ok p1 by simp
  have i1: "pre_part ''3-rc+test-01'' \<noteq> [] \<longrightarrow>
      list_all pre_id_ok (Split (pre_part ''3-rc+test-01'') (CHR ''.''))" by code_simp
  have i2: "\<forall>p\<in>set (Split (meta_part ''3-rc+test-01'') (CHR ''.'')). containsOnly p allowed"
    by code_simp
  note A = Validate_build_metadata [where a = "''1''" and b = "''2''" and c = "''3-rc+test-01''"
      and esc = id and ids = "[''test-01'']" and ms = "[]" and q = "''01''"
      and ver = "''1.2.3-rc+test-01''"]
  note B = Validate_build_metadata [where c = "''3''"]
  note C = Validate_build_metadata [where c = "''3+test-01''"]
  have r1: "''3-rc+test-01'' = before (CHR ''+'') ''3-rc+test-01'' @ ''+'' @ meta_part ''3-rc+test-01''"
    using A [THEN conjunct2, THEN conjunct1] h1 by blast
  have r2: "before (CHR ''+'') ''3-rc+test-01'' = patch_part ''3-rc+test-01'' @ ''-'' @ pre_part ''3-rc+test-01''"
    using A [THEN conjunct2, THEN conjunct2, THEN conjunct2, THEN conjunct1] h2 by blast
  have r3: "before (CHR ''+'') ''3'' = ''3'' \<and> meta_part ''3'' = []"
    using B [THEN conjunct2, THEN conjunct2, THEN conjunct1] h3 by blast
  have r4: "patch_part ''3+test-01'' = before (CHR ''+'') ''3+test-01'' \<and> pre_part ''3+test-01'' = []"
    using C [THEN conjunct2, THEN conjunct2, THEN conjunct2, THEN conjunct2, THEN conjunct1] h4
    by blast
  have r5: "Validate_meta_ids id (''01'' # [''test-01'']) [] = Validate_meta_ids id [''test-01''] []"
    using A [THEN conjunct2, THEN conjunct2, THEN conjunct2, THEN conjunct2, THEN conjunct2,
        THEN conjunct2, THEN conjunct1] h5 by blast
  have r6: "Validate id ''1.2.3-rc+test-01'' =
      Inr (None, found_lines ''1'' ''2'' (patch_part ''3-rc+test-01'')
                 @ pre_lines id (pre_part ''3-rc+test-01'') @ meta_lines id (meta_part ''3-rc+test-01''))"
    using A [THEN conjunct2, THEN conjunct2, THEN conjunct2, THEN conjunct2, THEN conjunct2,
        THEN conjunct2, THEN conjunct2, THEN conjunct1] s ok(1,2) okp i1 i2 by blast
  have r6': "Validate id ''1.2.3-rc+test-01'' =
      Inr (None, found_lines ''1'' ''2'' ''3'' @ pre_lines id ''rc'' @ meta_lines id ''test-01'')"
    using r6 unfolding m1 p1 .
  have b1: "containsOnly ''build'' allowed" "\<not> containsOnly ''a$b'' allowed" by code_simp+
  have b2: "(\<forall>x\<in>set [''build'']. containsOnly x allowed) \<and> \<not> containsOnly ''a$b'' allowed"
    using b1 by simp
  have q7: "Quote id ''a$b'' = [CHR 0x22] @ ''a$b'' @ [CHR 0x22]"
    by (simp add: Quote_def plain_def)
  have s7: "SplitN ''1.2.3+build.a$b.01'' (CHR ''.'') 3 = [''1'', ''2'', ''3+build.a$b.01'']"
    by code_simp
  have t7: "patch_part ''3+build.a$b.01'' = ''3''" "pre_part ''3+build.a$b.01'' = []"
    "meta_part ''3+build.a$b.01'' = ''build.a$b.01''" by code_simp+
  have ok7: "segment_parses (patch_part ''3+build.a$b.01'')" using ok t7 by simp
  have n7: "meta_part ''3+build.a$b.01'' \<noteq> []" using t7 by simp
  have i7: "Split (meta_part ''3+build.a$b.01'') (CHR ''.'') = [''build''] @ ''a$b'' # [''01'']"
    by code_simp
  note D = Validate_build_metadata [where a = "''1''" and b = "''2''"
      and c = "''3+build.a$b.01''" and esc = id and xs = "[''build'']" and p = "''a$b''"
      and ys = "[''01'']" and ms = "[]" and ver = "''1.2.3+build.a$b.01''"]
  have r7: "Validate_meta_ids id ([''build''] @ ''a$b'' # [''01'']) [] =
      Return ErrInvalidCharacters
        [''Illegal characters found in metadata part '' @ [CHR 0x22] @ ''a$b'' @ [CHR 0x22]
           @ ''. Must be [0-9A-Za-z-]'']"
    using D [THEN conjunct2, THEN conjunct2, THEN conjunct2, THEN conjunct2, THEN conjunct2,
        THEN conjunct2, THEN conjunct2, THEN conjunct2, THEN conjunct1] b2 q7 by simp
  have r8: "Validate id ''1.2.3+build.a$b.01'' =
      Inr (Some ErrInvalidCharacters,
           found_lines ''1'' ''2'' ''3''
           @ [''Illegal characters found in metadata part '' @ [CHR 0x22] @ ''a$b'' @ [CHR 0x22]
                @ ''. Must be [0-9A-Za-z-]''])"
    using D [THEN conjunct2, THEN conjunct2, THEN conjunct2, THEN conjunct2, THEN conjunct2,
        THEN conjunct2, THEN conjunct2, THEN conjunct2, THEN conjunct2, THEN conjunct1]
      s7 ok(1,2) ok7 t7 n7 i7 b2 q7 by (simp add: pre_lines_def)
  have n9: "meta_part ''3-rc+test-01'' \<noteq> []" using m1 by simp
  have i9: "Split (meta_part ''3-rc+test-01'') (CHR ''.'') = [''test-01'']" by code_simp
  have c9: "containsOnly ''test-01'' allowed" by code_simp
  have r9: "\<exists>msgs. Validate id ''1.2.3-rc+test-01'' = Inr (None, msgs)"
    using A [THEN conjunct2, THEN conjunct2, THEN conjunct2, THEN conjunct2, THEN conjunct2,
        THEN conjunct2, THEN conjunct2, THEN conjunct2, THEN conjunct2, THEN conjunct2,
        THEN conjunct1] s ok(1,2) okp i1 n9 i2 by blast
  show ?thesis
    apply (intro conjI)
    using h1 r1 m1 h2 r2 p1(1) h3 r3 h4 r4 h5 r5 s ok(1,2) okp r6' b1 r7 s7 ok7 t7(2) n7 i7 r8
      n9 i9 c9 r9
    by blast+
qed

text \<open>
  C9. Let the three segments pass and parse. A third piece that ends in \<open>-\<close> or in
  \<open>+\<close> with nothing behind it leaves an empty pre-release or metadata, which counts as
  absent: its block does nothing, adds no message, and the version is valid with the
  three lines of the segments alone. An empty identifier inside a suffix holds only
  digits and only allowed bytes, vacuously, so both loops step over it; a suffix whose
  other identifiers pass gives a valid version, as \<open>1.2.3-a..b\<close> does.
\<close>

theorem Validate_empty_suffix:
  assumes "segment_parses a" and "segment_parses b" and "segment_parses p"
  shows "Validate esc (a @ ''.'' @ b @ ''.'' @ p @ ''-'') = Inr (None, found_lines a b p)
   \<and> Validate esc (a @ ''.'' @ b @ ''.'' @ p @ ''+'') = Inr (None, found_lines a b p)
   \<and> Validate esc (a @ ''.'' @ b @ ''.'' @ p @ ''-+'') = Inr (None, found_lines a b p)
   \<and> pre_part (p @ ''-'') = [] \<and> meta_part (p @ ''+'') = []
   \<and> Validate_prerelease esc (v\<lparr>pre := []\<rparr>) ms = Next ms
   \<and> Validate_metadata esc (v\<lparr>metadata := []\<rparr>) ms = Next ms
   \<and> containsOnly [] num \<and> containsOnly [] allowed
   \<and> Validate_pre_ids esc (xs @ [] # ys) ms = Validate_pre_ids esc (xs @ ys) ms
   \<and> Validate_meta_ids esc (xs @ [] # ys) ms = Validate_meta_ids esc (xs @ ys) ms
   \<and> (s \<noteq> [] \<and> CHR ''+'' \<notin> set s \<and> (\<forall>x\<in>set (Split s (CHR ''.'')). x = [] \<or> pre_id_ok x) \<longrightarrow>
        Validate esc (a @ ''.'' @ b @ ''.'' @ p @ ''-'' @ s) =
          Inr (None, found_lines a b p @ pre_lines esc s))
   \<and> (t \<noteq> [] \<and> (\<forall>x\<in>set (Split t (CHR ''.'')). x = [] \<or> meta_id_ok x) \<longrightarrow>
        Validate esc (a @ ''.'' @ b @ ''.'' @ p @ ''+'' @ t) =
          Inr (None, found_lines a b p @ meta_lines esc t))"
proof -
  have dig: "containsOnly a num" "containsOnly b num" "containsOnly p num"
    using assms by (simp_all add: segment_parses_def segment_ok_def)
  note na = digits_no_separator [OF dig(1)]
  note nb = digits_no_separator [OF dig(2)]
  note np = digits_no_separator [OF dig(3)]
  have split: "SplitN (a @ ''.'' @ b @ ''.'' @ c) (CHR ''.'') 3 = [a, b, c]" for c
    using SplitN_3_join [OF na(1) nb(1), of c] by simp
  have e_pre: "pre_id_ok []" and e_meta: "meta_id_ok []"
    by (simp_all add: pre_id_ok_def meta_id_ok_def containsOnly_iff leading_zero_def)
  have valid: "Validate esc (a @ ''.'' @ b @ ''.'' @ c) =
      Inr (None, found_lines a b p @ pre_lines esc s' @ meta_lines esc t')"
    if "patch_part c = p \<and> pre_part c = s' \<and> meta_part c = t'"
      and "s' \<noteq> [] \<longrightarrow> list_all pre_id_ok (Split s' (CHR ''.''))"
      and "t' \<noteq> [] \<longrightarrow> list_all meta_id_ok (Split t' (CHR ''.''))"
    for c s' t'
    using Validate_valid_intro [OF split [of c], of esc] assms that by simp
  have 1: "Validate esc (a @ ''.'' @ b @ ''.'' @ p @ ''-'') = Inr (None, found_lines a b p)"
    using valid [of "p @ ''-''" "[]" "[]"] trim_minus [OF np(2) np(3), of "[]"]
    by (simp add: pre_lines_def meta_lines_def)
  have 2: "Validate esc (a @ ''.'' @ b @ ''.'' @ p @ ''+'') = Inr (None, found_lines a b p)"
    using valid [of "p @ ''+''" "[]" "[]"] trim_plus [OF np(2) np(3), of "[]"]
    by (simp add: pre_lines_def meta_lines_def)
  have 3: "Validate esc (a @ ''.'' @ b @ ''.'' @ p @ ''-+'') = Inr (None, found_lines a b p)"
    using valid [of "p @ ''-+''" "[]" "[]"] trim_minus_plus [OF np(2) np(3), of "[]" "[]"]
    by (simp add: pre_lines_def meta_lines_def)
  have 4: "pre_part (p @ ''-'') = []" "meta_part (p @ ''+'') = []"
    using trim_minus [OF np(2) np(3), of "[]"] trim_plus [OF np(2) np(3), of "[]"] by simp_all
  have 5: "Validate_prerelease esc (v\<lparr>pre := []\<rparr>) ms = Next ms"
    "Validate_metadata esc (v\<lparr>metadata := []\<rparr>) ms = Next ms"
    by (simp_all add: Validate_prerelease_def Validate_metadata_def)
  have 6: "containsOnly [] num" "containsOnly [] allowed"
    by (simp_all add: containsOnly_iff)
  have 7: "Validate_pre_ids esc (xs @ [] # ys) ms = Validate_pre_ids esc (xs @ ys) ms"
    using 6 by (induction xs) simp_all
  have 8: "Validate_meta_ids esc (xs @ [] # ys) ms = Validate_meta_ids esc (xs @ ys) ms"
    using 6 by (induction xs) simp_all
  have 9: "Validate esc (a @ ''.'' @ b @ ''.'' @ p @ ''-'' @ s) =
      Inr (None, found_lines a b p @ pre_lines esc s)"
    if "s \<noteq> [] \<and> CHR ''+'' \<notin> set s \<and> (\<forall>x\<in>set (Split s (CHR ''.'')). x = [] \<or> pre_id_ok x)"
  proof -
    have "list_all pre_id_ok (Split s (CHR ''.''))"
      using that e_pre by (auto simp add: list_all_iff)
    then show ?thesis
      using valid [of "p @ ''-'' @ s" s "[]"] trim_minus [OF np(2) np(3), of s] that
      by (simp add: meta_lines_def)
  qed
  have 10: "Validate esc (a @ ''.'' @ b @ ''.'' @ p @ ''+'' @ t) =
      Inr (None, found_lines a b p @ meta_lines esc t)"
    if "t \<noteq> [] \<and> (\<forall>x\<in>set (Split t (CHR ''.'')). x = [] \<or> meta_id_ok x)"
  proof -
    have "list_all meta_id_ok (Split t (CHR ''.''))"
      using that e_meta by (auto simp add: list_all_iff)
    then show ?thesis
      using valid [of "p @ ''+'' @ t" "[]" t] trim_plus [OF np(2) np(3), of t] that
      by (simp add: pre_lines_def)
  qed
  from 1 2 3 4 5 6 7 8 9 10 show ?thesis by blast
qed

theorem Validate_empty_suffix_witness:
  "segment_parses ''1'' \<and> segment_parses ''2'' \<and> segment_parses ''3''
   \<and> Validate id ''1.2.3-'' = Inr (None, found_lines ''1'' ''2'' ''3'')
   \<and> Validate id ''1.2.3+'' = Inr (None, found_lines ''1'' ''2'' ''3'')
   \<and> Validate id ''1.2.3-+'' = Inr (None, found_lines ''1'' ''2'' ''3'')
   \<and> (''a..b'' \<noteq> [] \<and> CHR ''+'' \<notin> set ''a..b''
      \<and> Split ''a..b'' (CHR ''.'') = [''a'', [], ''b''] \<and> pre_id_ok ''a'' \<and> pre_id_ok ''b''
      \<and> Validate id ''1.2.3-a..b'' =
           Inr (None, found_lines ''1'' ''2'' ''3'' @ pre_lines id ''a..b''))
   \<and> (meta_id_ok ''a'' \<and> meta_id_ok ''b''
      \<and> Validate id ''1.2.3+a..b'' =
           Inr (None, found_lines ''1'' ''2'' ''3'' @ meta_lines id ''a..b''))"
proof -
  have ok: "segment_parses ''1''" "segment_parses ''2''" "segment_parses ''3''"
    by (simp_all add: segment_eval)
  note W = Validate_empty_suffix [OF ok, where esc = id and s = "''a..b''" and t = "''a..b''"]
  have sp: "Split ''a..b'' (CHR ''.'') = [''a'', [], ''b'']" by code_simp
  have ids: "pre_id_ok ''a''" "pre_id_ok ''b''" "meta_id_ok ''a''" "meta_id_ok ''b''"
    by code_simp+
  have h1: "''a..b'' \<noteq> [] \<and> CHR ''+'' \<notin> set ''a..b''
      \<and> (\<forall>x\<in>set (Split ''a..b'' (CHR ''.'')). x = [] \<or> pre_id_ok x)"
    unfolding sp using ids by simp
  have h2: "''a..b'' \<noteq> [] \<and> (\<forall>x\<in>set (Split ''a..b'' (CHR ''.'')). x = [] \<or> meta_id_ok x)"
    unfolding sp using ids by simp
  have r1: "Validate id ''1.2.3-'' = Inr (None, found_lines ''1'' ''2'' ''3'')"
    using W [THEN conjunct1] by simp
  have r2: "Validate id ''1.2.3+'' = Inr (None, found_lines ''1'' ''2'' ''3'')"
    using W [THEN conjunct2, THEN conjunct1] by simp
  have r3: "Validate id ''1.2.3-+'' = Inr (None, found_lines ''1'' ''2'' ''3'')"
    using W [THEN conjunct2, THEN conjunct2, THEN conjunct1] by simp
  have r4: "Validate id ''1.2.3-a..b'' =
      Inr (None, found_lines ''1'' ''2'' ''3'' @ pre_lines id ''a..b'')"
    using W [THEN conjunct2, THEN conjunct2, THEN conjunct2, THEN conjunct2, THEN conjunct2,
        THEN conjunct2, THEN conjunct2, THEN conjunct2, THEN conjunct2, THEN conjunct2,
        THEN conjunct2, THEN conjunct1] h1 by simp
  have r5: "Validate id ''1.2.3+a..b'' =
      Inr (None, found_lines ''1'' ''2'' ''3'' @ meta_lines id ''a..b'')"
    using W [THEN conjunct2, THEN conjunct2, THEN conjunct2, THEN conjunct2, THEN conjunct2,
        THEN conjunct2, THEN conjunct2, THEN conjunct2, THEN conjunct2, THEN conjunct2,
        THEN conjunct2, THEN conjunct2] h2 by simp
  from ok r1 r2 r3 h1 sp ids r4 r5 show ?thesis by simp
qed

text \<open>
  C2, as stated, fails: in \<open>99999999999999999999.x.1\<close> the major segment passes the
  check for digits and the check for a leading zero and its value is above
  \<open>2 ^ 64 - 1\<close>, yet no parse failure is reported and the outcome is
  \<open>ErrInvalidCharacters\<close>, from the minor segment: all three segments are checked before
  any of them is parsed.
\<close>

theorem Validate_overflow_counterexample:
  "SplitN ''99999999999999999999.x.1'' (CHR ''.'') 3 = [''99999999999999999999'', ''x'', ''1'']
   \<and> segment_ok ''99999999999999999999''
   \<and> 2 ^ 64 \<le> digits_val ''99999999999999999999''
   \<and> Validate id ''99999999999999999999.x.1'' =
       Inr (Some ErrInvalidCharacters,
            [''Illegal non-numeric characters found in '' @ [CHR 0x22] @ ''minor'' @ [CHR 0x22]
               @ '' part''])"
proof -
  have s: "SplitN ''99999999999999999999.x.1'' (CHR ''.'') 3 = [''99999999999999999999'', ''x'', ''1'']"
    by code_simp
  have ok: "segment_ok ''99999999999999999999''" by (simp add: segment_eval)
  have big: "2 ^ 64 \<le> digits_val ''99999999999999999999''" by (simp add: digits_val_def)
  have x: "\<not> containsOnly ''x'' num" by code_simp
  then have bad: "\<not> (segment_ok ''99999999999999999999'' \<and> segment_ok ''x''
      \<and> segment_ok (patch_part ''1''))"
    by (simp add: segment_ok_def)
  from Validate_check_fails [OF s bad, of id] ok x have
    "Validate id ''99999999999999999999.x.1'' =
       Inr (Some ErrInvalidCharacters,
            [''Illegal non-numeric characters found in '' @ [CHR 0x22] @ ''minor'' @ [CHR 0x22]
               @ '' part''])"
    by (simp add: segment_ok_def Quote_names)
  with s ok big show ?thesis by blast
qed

text \<open>
  C2, amended. Let the three segments of an input pass the check for digits and the check
  for a leading zero, so that validation reaches the parsing. If a segment has a value
  above \<open>2 ^ 64 - 1\<close> and the segments before it parse, then \<open>Validate\<close> returns the range
  error of \<open>ParseUint\<close> for this segment, and its messages are the lines of the segments
  before it followed by the parse failure that names this segment; no line reports a
  value for it. And an input with a segment that passes the two checks and has such a
  value is never valid, whatever its other segments are.
\<close>

theorem Validate_overflow:
  assumes "SplitN ver (CHR ''.'') 3 = [a, b, c]"
    and "parts = [a, b, patch_part c]"
    and "names = [''major'', ''minor'', ''patch'']"
  shows "((\<forall>x\<in>set parts. segment_ok x) \<and> i < 3 \<and> 2 ^ 64 \<le> digits_val (parts ! i)
          \<and> (\<forall>j<i. segment_parses (parts ! j)) \<longrightarrow>
          Validate esc ver =
            Inr (Some (NumError ''ParseUint'' (parts ! i) ErrRange),
                 take i (found_lines a b (patch_part c))
                 @ [''Unable to parse '' @ names ! i
                      @ '' part. Must be valid numeric characters [0-9]'']))
       \<and> ((\<exists>x\<in>set parts. segment_ok x \<and> 2 ^ 64 \<le> digits_val x) \<longrightarrow>
          (\<exists>e ms. Validate esc ver = Inr (Some e, ms)))"
proof -
  let ?p = "patch_part c"
  let ?v = "version_zero\<lparr>pre := pre_part c, metadata := meta_part c\<rparr>"
  have range: "Validate esc ver =
      Inr (Some (NumError ''ParseUint'' (parts ! i) ErrRange),
           take i (found_lines a b ?p)
           @ [''Unable to parse '' @ names ! i @ '' part. Must be valid numeric characters [0-9]''])"
    if h: "(\<forall>x\<in>set parts. segment_ok x) \<and> i < 3 \<and> 2 ^ 64 \<le> digits_val (parts ! i)
          \<and> (\<forall>j<i. segment_parses (parts ! j))"
  proof -
    have ok: "segment_ok a" "segment_ok b" "segment_ok ?p"
      using h assms(2) by simp_all
    then have dig: "containsOnly a num" "containsOnly b num" "containsOnly ?p num"
      by (simp_all add: segment_ok_def)
    have i: "i = 0 \<or> i = 1 \<or> i = 2" using h by auto
    have pa: "0 < i \<longrightarrow> a \<noteq> [] \<and> digits_val a < 2 ^ 64"
      using h [THEN conjunct2, THEN conjunct2, THEN conjunct2, THEN spec, of 0] assms(2)
      by (simp add: segment_parses_def)
    have pb: "1 < i \<longrightarrow> b \<noteq> [] \<and> digits_val b < 2 ^ 64"
      using h [THEN conjunct2, THEN conjunct2, THEN conjunct2, THEN spec, of 1] assms(2)
      by (simp add: segment_parses_def)
    have ne: "parts ! i \<noteq> []"
    proof
      assume "parts ! i = []"
      then have "digits_val (parts ! i) = 0" by (simp add: digits_val_def)
      with h show False by simp
    qed
    have v: "Validate esc ver =
      (case Validate_parse [a, b, ?p] ?v [] of
        Inl f \<Rightarrow> Inl f
      | Inr (Return e ms) \<Rightarrow> Inr (Some e, ms)
      | Inr (Next (v', messages2)) \<Rightarrow>
          (case Validate_prerelease esc v' messages2 of
             Return e ms \<Rightarrow> Inr (Some e, ms)
           | Next messages3 \<Rightarrow>
             (case Validate_metadata esc v' messages3 of
                Return e ms \<Rightarrow> Inr (Some e, ms)
              | Next messages4 \<Rightarrow> Inr (None, messages4))))"
      using Validate_checked [OF assms(1) ok] .
    from i show ?thesis
    proof (elim disjE)
      assume i0: "i = 0"
      then have "a \<noteq> []" "2 ^ 64 \<le> digits_val a" using ne h assms(2) by simp_all
      then have "Validate_parse [a, b, ?p] ?v [] =
          Inr (Return (NumError ''ParseUint'' a ErrRange)
            [''Unable to parse major part. Must be valid numeric characters [0-9]''])"
        unfolding Validate_parse_3 [OF dig] by simp
      then show ?thesis unfolding v using i0 assms(2,3) by simp
    next
      assume i1: "i = 1"
      then have "b \<noteq> []" "2 ^ 64 \<le> digits_val b" "a \<noteq> []" "\<not> 2 ^ 64 \<le> digits_val a"
        using ne h pa assms(2) by simp_all
      then have "Validate_parse [a, b, ?p] ?v [] =
          Inr (Return (NumError ''ParseUint'' b ErrRange)
            [''Found major version of '' @ fmt_d (digits_val a),
             ''Unable to parse minor part. Must be valid numeric characters [0-9]''])"
        unfolding Validate_parse_3 [OF dig] by simp
      then show ?thesis unfolding v using i1 assms(2,3) by (simp add: found_lines_def)
    next
      assume i2: "i = 2"
      then have "?p \<noteq> []" "2 ^ 64 \<le> digits_val ?p" "a \<noteq> []" "\<not> 2 ^ 64 \<le> digits_val a"
        "b \<noteq> []" "\<not> 2 ^ 64 \<le> digits_val b"
        using ne h pa pb assms(2) by simp_all
      then have "Validate_parse [a, b, ?p] ?v [] =
          Inr (Return (NumError ''ParseUint'' ?p ErrRange)
            [''Found major version of '' @ fmt_d (digits_val a),
             ''Found minor version of '' @ fmt_d (digits_val b),
             ''Unable to parse patch part. Must be valid numeric characters [0-9]''])"
        unfolding Validate_parse_3 [OF dig] by simp
      then show ?thesis unfolding v using i2 assms(2,3) by (simp add: found_lines_def)
    qed
  qed
  have never: "\<exists>e ms. Validate esc ver = Inr (Some e, ms)"
    if h: "\<exists>x\<in>set parts. segment_ok x \<and> 2 ^ 64 \<le> digits_val x"
  proof -
    obtain e ms where r: "Validate esc ver = Inr (e, ms)"
      using Validate_total by blast
    have "e \<noteq> None"
    proof
      assume "e = None"
      with r have "Validate esc ver = Inr (None, ms)" by simp
      from Validate_valid_elim [OF this] assms(1)
      have "segment_parses a \<and> segment_parses b \<and> segment_parses ?p" by auto
      then have "\<forall>x\<in>set parts. digits_val x < 2 ^ 64"
        using assms(2) by (simp add: segment_parses_def)
      with h show False by (auto simp add: not_le [symmetric])
    qed
    with r show ?thesis by auto
  qed
  from range never show ?thesis by blast
qed

theorem Validate_overflow_witness:
  "SplitN ''1.18446744073709551616.3'' (CHR ''.'') 3 = [''1'', ''18446744073709551616'', ''3'']
   \<and> [''1'', ''18446744073709551616'', ''3''] = [''1'', ''18446744073709551616'', patch_part ''3'']
   \<and> segment_ok ''1'' \<and> segment_ok ''18446744073709551616'' \<and> segment_ok ''3''
   \<and> (1::nat) < 3 \<and> 2 ^ 64 \<le> digits_val ([''1'', ''18446744073709551616'', ''3''] ! 1)
   \<and> segment_parses ([''1'', ''18446744073709551616'', ''3''] ! 0)
   \<and> Validate id ''1.18446744073709551616.3'' =
       Inr (Some (NumError ''ParseUint'' ''18446744073709551616'' ErrRange),
            [''Found major version of 1'',
             ''Unable to parse minor part. Must be valid numeric characters [0-9]''])
   \<and> (\<exists>e ms. Validate id ''1.18446744073709551616.3'' = Inr (Some e, ms))"
proof -
  have s: "SplitN ''1.18446744073709551616.3'' (CHR ''.'') 3 = [''1'', ''18446744073709551616'', ''3'']"
    by code_simp
  have p: "[''1'', ''18446744073709551616'', ''3''] = [''1'', ''18446744073709551616'', patch_part ''3'']"
    by code_simp
  have ok: "segment_ok ''1''" "segment_ok ''18446744073709551616''" "segment_ok ''3''"
    by (simp_all add: segment_eval)
  have big: "2 ^ 64 \<le> digits_val ([''1'', ''18446744073709551616'', ''3''] ! 1)"
    by (simp add: digits_val_def)
  have p1: "segment_parses ''1''" by (simp add: segment_eval)
  have f: "fmt_d (digits_val ''1'') = ''1''" using segment_parses_fmt [OF p1] .
  note W = Validate_overflow [OF s p refl, where esc = id and i = 1]
  have h1: "(\<forall>x\<in>set [''1'', ''18446744073709551616'', ''3'']. segment_ok x) \<and> (1::nat) < 3
      \<and> 2 ^ 64 \<le> digits_val ([''1'', ''18446744073709551616'', ''3''] ! 1)
      \<and> (\<forall>j<1. segment_parses ([''1'', ''18446744073709551616'', ''3''] ! j))"
    using ok big p1 by simp
  have h2: "\<exists>x\<in>set [''1'', ''18446744073709551616'', ''3'']. segment_ok x \<and> 2 ^ 64 \<le> digits_val x"
    using ok big by simp
  from W [THEN conjunct1] h1
  have r1: "Validate id ''1.18446744073709551616.3'' =
       Inr (Some (NumError ''ParseUint'' ''18446744073709551616'' ErrRange),
            [''Found major version of 1'',
             ''Unable to parse minor part. Must be valid numeric characters [0-9]''])"
    by (simp add: found_lines_def f)
  from W [THEN conjunct2] h2
  have r2: "\<exists>e ms. Validate id ''1.18446744073709551616.3'' = Inr (Some e, ms)"
    by blast
  from s p ok big p1 r1 r2 show ?thesis by simp
qed

text \<open>
  C10, as stated, fails: \<open>01.2.3.4\<close> has four pieces between dots and neither \<open>+\<close>
  nor \<open>-\<close>, and its outcome is \<open>ErrSegmentStartsZero\<close>, from the major segment, not
  \<open>ErrInvalidCharacters\<close>.
\<close>

theorem Validate_extra_dots_counterexample:
  "4 \<le> length (Split ''01.2.3.4'' (CHR ''.''))
   \<and> CHR ''+'' \<notin> set ''01.2.3.4'' \<and> CHR ''-'' \<notin> set ''01.2.3.4''
   \<and> Validate id ''01.2.3.4'' =
       Inr (Some ErrSegmentStartsZero,
            [''Illegal leading 0 found in '' @ [CHR 0x22] @ ''major'' @ [CHR 0x22] @ '' part''])
   \<and> Some ErrSegmentStartsZero \<noteq> Some ErrInvalidCharacters"
proof -
  have l: "4 \<le> length (Split ''01.2.3.4'' (CHR ''.''))" by code_simp
  have s: "SplitN ''01.2.3.4'' (CHR ''.'') 3 = [''01'', ''2'', ''3.4'']" by code_simp
  have z: "containsOnly ''01'' num" "leading_zero ''01''" by code_simp+
  then have bad: "\<not> (segment_ok ''01'' \<and> segment_ok ''2'' \<and> segment_ok (patch_part ''3.4''))"
    by (simp add: segment_ok_def)
  from Validate_check_fails [OF s bad, of id] z l show ?thesis
    by (simp add: Quote_names)
qed

text \<open>
  C10, amended. An input with four or more pieces between dots and neither \<open>+\<close> nor
  \<open>-\<close> is split into three pieces, the third of which keeps the dots left over and
  therefore fails the check for digits. Such an input is never valid and never counted as
  having the wrong number of parts. Its outcome is that of the first segment, in the order
  major, minor, patch, that fails a check, with the one message that names this segment:
  \<open>ErrInvalidCharacters\<close> for a major or minor segment with a byte that is no digit,
  \<open>ErrSegmentStartsZero\<close> for a major or minor segment of digits with a leading zero,
  and \<open>ErrInvalidCharacters\<close> on the patch segment whenever the major and the minor
  segment pass their checks. On any input, \<open>ErrInvalidNumberParts\<close> comes from one or
  two pieces only.
\<close>

theorem Validate_extra_dots:
  assumes "4 \<le> length (Split ver (CHR ''.''))"
    and "CHR ''+'' \<notin> set ver" and "CHR ''-'' \<notin> set ver"
  shows "(\<exists>a b c. SplitN ver (CHR ''.'') 3 = [a, b, c] \<and> CHR ''.'' \<in> set c
           \<and> patch_part c = c \<and> \<not> containsOnly c num
           \<and> (\<not> containsOnly a num \<longrightarrow>
                Validate esc ver =
                  Inr (Some ErrInvalidCharacters,
                       [''Illegal non-numeric characters found in '' @ [CHR 0x22] @ ''major''
                          @ [CHR 0x22] @ '' part'']))
           \<and> (containsOnly a num \<and> 1 < length a \<and> a ! 0 = CHR ''0'' \<longrightarrow>
                Validate esc ver =
                  Inr (Some ErrSegmentStartsZero,
                       [''Illegal leading 0 found in '' @ [CHR 0x22] @ ''major''
                          @ [CHR 0x22] @ '' part'']))
           \<and> (segment_ok a \<and> \<not> containsOnly b num \<longrightarrow>
                Validate esc ver =
                  Inr (Some ErrInvalidCharacters,
                       [''Illegal non-numeric characters found in '' @ [CHR 0x22] @ ''minor''
                          @ [CHR 0x22] @ '' part'']))
           \<and> (segment_ok a \<and> containsOnly b num \<and> 1 < length b \<and> b ! 0 = CHR ''0'' \<longrightarrow>
                Validate esc ver =
                  Inr (Some ErrSegmentStartsZero,
                       [''Illegal leading 0 found in '' @ [CHR 0x22] @ ''minor''
                          @ [CHR 0x22] @ '' part'']))
           \<and> (segment_ok a \<and> segment_ok b \<longrightarrow>
                Validate esc ver =
                  Inr (Some ErrInvalidCharacters,
                       [''Illegal non-numeric characters found in '' @ [CHR 0x22] @ ''patch''
                          @ [CHR 0x22] @ '' part''])))
       \<and> (\<exists>e ms. Validate esc ver = Inr (Some e, ms)
             \<and> (e = ErrInvalidCharacters \<or> e = ErrSegmentStartsZero))
       \<and> (Validate esc w = Inr (Some ErrInvalidNumberParts, ms') \<longrightarrow>
             length (SplitN w (CHR ''.'') 3) = 1 \<or> length (SplitN w (CHR ''.'') 3) = 2)"
proof -
  define a where "a = before (CHR ''.'') ver"
  define b where "b = before (CHR ''.'') (after (CHR ''.'') ver)"
  define c where "c = after (CHR ''.'') (after (CHR ''.'') ver)"
  have "3 \<le> Count ver (CHR ''.'')" using assms(1) by (simp add: length_Split)
  from many_dots [OF this] have abc: "SplitN ver (CHR ''.'') 3 = [a, b, c]"
    and dot: "CHR ''.'' \<in> set c"
    by (simp_all add: a_def b_def c_def)
  have "set c \<subseteq> set ver"
    unfolding c_def using set_after [of "CHR ''.''"] by blast
  then have "CHR ''-'' \<notin> set c" "CHR ''+'' \<notin> set c" using assms(2,3) by auto
  then have patch: "patch_part c = c" using trim_plain by blast
  have nodig: "\<not> containsOnly c num" using dot digits_no_separator(1) by blast
  then have bad: "\<not> (segment_ok a \<and> segment_ok b \<and> segment_ok (patch_part c))"
    by (simp add: patch segment_ok_def)
  note fails = Validate_check_fails [OF abc bad, of esc]
  have m1: "Validate esc ver =
      Inr (Some ErrInvalidCharacters,
           [''Illegal non-numeric characters found in '' @ [CHR 0x22] @ ''major''
              @ [CHR 0x22] @ '' part''])"
    if "\<not> containsOnly a num"
    using fails that by (simp add: Quote_names)
  have m2: "Validate esc ver =
      Inr (Some ErrSegmentStartsZero,
           [''Illegal leading 0 found in '' @ [CHR 0x22] @ ''major'' @ [CHR 0x22] @ '' part''])"
    if "containsOnly a num \<and> 1 < length a \<and> a ! 0 = CHR ''0''"
    using fails that by (simp add: Quote_names leading_zero_def)
  have n1: "Validate esc ver =
      Inr (Some ErrInvalidCharacters,
           [''Illegal non-numeric characters found in '' @ [CHR 0x22] @ ''minor''
              @ [CHR 0x22] @ '' part''])"
    if "segment_ok a \<and> \<not> containsOnly b num"
    using fails that by (simp add: Quote_names segment_ok_def)
  have n2: "Validate esc ver =
      Inr (Some ErrSegmentStartsZero,
           [''Illegal leading 0 found in '' @ [CHR 0x22] @ ''minor'' @ [CHR 0x22] @ '' part''])"
    if "segment_ok a \<and> containsOnly b num \<and> 1 < length b \<and> b ! 0 = CHR ''0''"
    using fails that by (simp add: Quote_names segment_ok_def leading_zero_def)
  have 1: "Validate esc ver =
      Inr (Some ErrInvalidCharacters,
           [''Illegal non-numeric characters found in '' @ [CHR 0x22] @ ''patch''
              @ [CHR 0x22] @ '' part''])"
    if "segment_ok a \<and> segment_ok b"
    using fails that nodig by (simp add: patch segment_ok_def Quote_names)
  have 2: "\<exists>e ms. Validate esc ver = Inr (Some e, ms)
      \<and> (e = ErrInvalidCharacters \<or> e = ErrSegmentStartsZero)"
    using fails nodig by (simp add: patch)
  have 3: "length (SplitN w (CHR ''.'') 3) = 1 \<or> length (SplitN w (CHR ''.'') 3) = 2"
    if "Validate esc w = Inr (Some ErrInvalidNumberParts, ms')"
    using that by (rule Validate_number_parts_only)
  have first: "\<exists>a b c. SplitN ver (CHR ''.'') 3 = [a, b, c] \<and> CHR ''.'' \<in> set c
           \<and> patch_part c = c \<and> \<not> containsOnly c num
           \<and> (\<not> containsOnly a num \<longrightarrow>
                Validate esc ver =
                  Inr (Some ErrInvalidCharacters,
                       [''Illegal non-numeric characters found in '' @ [CHR 0x22] @ ''major''
                          @ [CHR 0x22] @ '' part'']))
           \<and> (containsOnly a num \<and> 1 < length a \<and> a ! 0 = CHR ''0'' \<longrightarrow>
                Validate esc ver =
                  Inr (Some ErrSegmentStartsZero,
                       [''Illegal leading 0 found in '' @ [CHR 0x22] @ ''major''
                          @ [CHR 0x22] @ '' part'']))
           \<and> (segment_ok a \<and> \<not> containsOnly b num \<longrightarrow>
                Validate esc ver =
                  Inr (Some ErrInvalidCharacters,
                       [''Illegal non-numeric characters found in '' @ [CHR 0x22] @ ''minor''
                          @ [CHR 0x22] @ '' part'']))
           \<and> (segment_ok a \<and> containsOnly b num \<and> 1 < length b \<and> b ! 0 = CHR ''0'' \<longrightarrow>
                Validate esc ver =
                  Inr (Some ErrSegmentStartsZero,
                       [''Illegal leading 0 found in '' @ [CHR 0x22] @ ''minor''
                          @ [CHR 0x22] @ '' part'']))
           \<and> (segment_ok a \<and> segment_ok b \<longrightarrow>
                Validate esc ver =
                  Inr (Some ErrInvalidCharacters,
                       [''Illegal non-numeric characters found in '' @ [CHR 0x22] @ ''patch''
                          @ [CHR 0x22] @ '' part'']))"
    apply (rule exI [of _ a], rule exI [of _ b], rule exI [of _ c])
    apply (intro conjI impI)
    subgoal by (rule abc)
    subgoal by (rule dot)
    subgoal by (rule patch)
    subgoal by (rule nodig)
    subgoal using m1 by blast
    subgoal using m2 by blast
    subgoal using n1 by blast
    subgoal using n2 by blast
    subgoal using 1 by blast
    done
  from first 2 3 show ?thesis by blast
qed

theorem Validate_extra_dots_witness:
  "(4 \<le> length (Split ''1.2.3.4'' (CHR ''.''))
    \<and> CHR ''+'' \<notin> set ''1.2.3.4'' \<and> CHR ''-'' \<notin> set ''1.2.3.4''
    \<and> SplitN ''1.2.3.4'' (CHR ''.'') 3 = [''1'', ''2'', ''3.4'']
    \<and> segment_ok ''1'' \<and> segment_ok ''2''
    \<and> Validate id ''1.2.3.4'' =
        Inr (Some ErrInvalidCharacters,
             [''Illegal non-numeric characters found in '' @ [CHR 0x22] @ ''patch''
                @ [CHR 0x22] @ '' part'']))
   \<and> (4 \<le> length (Split ''v1.2.3.4'' (CHR ''.''))
    \<and> CHR ''+'' \<notin> set ''v1.2.3.4'' \<and> CHR ''-'' \<notin> set ''v1.2.3.4''
    \<and> SplitN ''v1.2.3.4'' (CHR ''.'') 3 = [''v1'', ''2'', ''3.4'']
    \<and> \<not> containsOnly ''v1'' num
    \<and> Validate id ''v1.2.3.4'' =
        Inr (Some ErrInvalidCharacters,
             [''Illegal non-numeric characters found in '' @ [CHR 0x22] @ ''major''
                @ [CHR 0x22] @ '' part'']))
   \<and> (4 \<le> length (Split ''00.2.3.4'' (CHR ''.''))
    \<and> CHR ''+'' \<notin> set ''00.2.3.4'' \<and> CHR ''-'' \<notin> set ''00.2.3.4''
    \<and> SplitN ''00.2.3.4'' (CHR ''.'') 3 = [''00'', ''2'', ''3.4'']
    \<and> containsOnly ''00'' num \<and> 1 < length ''00'' \<and> ''00'' ! 0 = CHR ''0''
    \<and> Validate id ''00.2.3.4'' =
        Inr (Some ErrSegmentStartsZero,
             [''Illegal leading 0 found in '' @ [CHR 0x22] @ ''major'' @ [CHR 0x22] @ '' part'']))
   \<and> (4 \<le> length (Split ''1.y.3.4'' (CHR ''.''))
    \<and> CHR ''+'' \<notin> set ''1.y.3.4'' \<and> CHR ''-'' \<notin> set ''1.y.3.4''
    \<and> SplitN ''1.y.3.4'' (CHR ''.'') 3 = [''1'', ''y'', ''3.4'']
    \<and> segment_ok ''1'' \<and> \<not> containsOnly ''y'' num
    \<and> Validate id ''1.y.3.4'' =
        Inr (Some ErrInvalidCharacters,
             [''Illegal non-numeric characters found in '' @ [CHR 0x22] @ ''minor''
                @ [CHR 0x22] @ '' part'']))
   \<and> (4 \<le> length (Split ''1.02.3.4'' (CHR ''.''))
    \<and> CHR ''+'' \<notin> set ''1.02.3.4'' \<and> CHR ''-'' \<notin> set ''1.02.3.4''
    \<and> SplitN ''1.02.3.4'' (CHR ''.'') 3 = [''1'', ''02'', ''3.4'']
    \<and> segment_ok ''1'' \<and> containsOnly ''02'' num \<and> 1 < length ''02'' \<and> ''02'' ! 0 = CHR ''0''
    \<and> Validate id ''1.02.3.4'' =
        Inr (Some ErrSegmentStartsZero,
             [''Illegal leading 0 found in '' @ [CHR 0x22] @ ''minor'' @ [CHR 0x22] @ '' part'']))
   \<and> Validate id ''1.2'' = Inr (Some ErrInvalidNumberParts, [''Found 2 number of parts''])
   \<and> (length (SplitN ''1.2'' (CHR ''.'') 3) = 1 \<or> length (SplitN ''1.2'' (CHR ''.'') 3) = 2)"
proof -
  have ok: "segment_ok ''1''" "segment_ok ''2''" by (simp_all add: segment_eval)
  have w: "Validate id ''1.2'' = Inr (Some ErrInvalidNumberParts, [''Found 2 number of parts''])"
    by code_simp
  have l1: "4 \<le> length (Split ''1.2.3.4'' (CHR ''.''))" by code_simp
  have p1: "CHR ''+'' \<notin> set ''1.2.3.4''" "CHR ''-'' \<notin> set ''1.2.3.4''" by simp_all
  have s1: "SplitN ''1.2.3.4'' (CHR ''.'') 3 = [''1'', ''2'', ''3.4'']" by code_simp
  note W1 = Validate_extra_dots [OF l1 p1, where esc = id and w = "''1.2''"
      and ms' = "[''Found 2 number of parts'']"]
  from W1 [THEN conjunct1] s1 ok
  have r1: "Validate id ''1.2.3.4'' =
       Inr (Some ErrInvalidCharacters,
            [''Illegal non-numeric characters found in '' @ [CHR 0x22] @ ''patch''
               @ [CHR 0x22] @ '' part''])"
    by (elim exE conjE) simp
  from W1 [THEN conjunct2, THEN conjunct2] w
  have r0: "length (SplitN ''1.2'' (CHR ''.'') 3) = 1 \<or> length (SplitN ''1.2'' (CHR ''.'') 3) = 2"
    by blast
  have l2: "4 \<le> length (Split ''v1.2.3.4'' (CHR ''.''))" by code_simp
  have p2: "CHR ''+'' \<notin> set ''v1.2.3.4''" "CHR ''-'' \<notin> set ''v1.2.3.4''" by simp_all
  have s2: "SplitN ''v1.2.3.4'' (CHR ''.'') 3 = [''v1'', ''2'', ''3.4'']" by code_simp
  have h2: "\<not> containsOnly ''v1'' num" by code_simp
  from Validate_extra_dots [OF l2 p2, where esc = id, THEN conjunct1] s2 h2
  have r2: "Validate id ''v1.2.3.4'' =
        Inr (Some ErrInvalidCharacters,
             [''Illegal non-numeric characters found in '' @ [CHR 0x22] @ ''major''
                @ [CHR 0x22] @ '' part''])"
    by (elim exE conjE) simp
  have l3: "4 \<le> length (Split ''00.2.3.4'' (CHR ''.''))" by code_simp
  have p3: "CHR ''+'' \<notin> set ''00.2.3.4''" "CHR ''-'' \<notin> set ''00.2.3.4''" by simp_all
  have s3: "SplitN ''00.2.3.4'' (CHR ''.'') 3 = [''00'', ''2'', ''3.4'']" by code_simp
  have h3: "containsOnly ''00'' num \<and> 1 < length ''00'' \<and> ''00'' ! 0 = CHR ''0''" by code_simp
  from Validate_extra_dots [OF l3 p3, where esc = id, THEN conjunct1] s3 h3
  have r3: "Validate id ''00.2.3.4'' =
        Inr (Some ErrSegmentStartsZero,
             [''Illegal leading 0 found in '' @ [CHR 0x22] @ ''major'' @ [CHR 0x22] @ '' part''])"
    by (elim exE conjE) simp
  have l4: "4 \<le> length (Split ''1.y.3.4'' (CHR ''.''))" by code_simp
  have p4: "CHR ''+'' \<notin> set ''1.y.3.4''" "CHR ''-'' \<notin> set ''1.y.3.4''" by simp_all
  have s4: "SplitN ''1.y.3.4'' (CHR ''.'') 3 = [''1'', ''y'', ''3.4'']" by code_simp
  have h4: "\<not> containsOnly ''y'' num" by code_simp
  from Validate_extra_dots [OF l4 p4, where esc = id, THEN conjunct1] s4 h4 ok(1)
  have r4: "Validate id ''1.y.3.4'' =
        Inr (Some ErrInvalidCharacters,
             [''Illegal non-numeric characters found in '' @ [CHR 0x22] @ ''minor''
                @ [CHR 0x22] @ '' part''])"
    by (elim exE conjE) simp
  have l5: "4 \<le> length (Split ''1.02.3.4'' (CHR ''.''))" by code_simp
  have p5: "CHR ''+'' \<notin> set ''1.02.3.4''" "CHR ''-'' \<notin> set ''1.02.3.4''" by simp_all
  have s5: "SplitN ''1.02.3.4'' (CHR ''.'') 3 = [''1'', ''02'', ''3.4'']" by code_simp
  have h5: "containsOnly ''02'' num \<and> 1 < length ''02'' \<and> ''02'' ! 0 = CHR ''0''" by code_simp
  from Validate_extra_dots [OF l5 p5, where esc = id, THEN conjunct1] s5 h5 ok(1)
  have r5: "Validate id ''1.02.3.4'' =
        Inr (Some ErrSegmentStartsZero,
             [''Illegal leading 0 found in '' @ [CHR 0x22] @ ''minor'' @ [CHR 0x22] @ '' part''])"
    by (elim exE conjE) simp
  show ?thesis
    apply (intro conjI)
    using l1 p1 s1 ok r1 l2 p2 s2 h2 r2 l3 p3 s3 h3 r3 l4 p4 s4 h4 r4 l5 p5 s5 h5 r5 w r0
    by blast+
qed

end
